theory Spec2Isabelle
  imports Main "HOL-Library.Multiset"
begin

section \<open>Values of the JavaScript runtime\<close>

text \<open>
  A JavaScript string is represented by its UTF-8 byte sequence (\<^typ>\<open>string\<close>), so that
  \<open>Buffer.from(s, "utf8")\<close> is the representation itself. The strings a request carries come
  out of \<open>URLSearchParams\<close>, which only yields well-formed strings.

  Parsed JSON is a \<open>json\<close> value; \<open>undefined\<close> is \<open>None\<close> of \<^typ>\<open>'a option\<close>. Numbers are
  integers: the quantities and lifetimes of the program are whole numbers far below
  \<open>2 ^ 53\<close>, where the arithmetic of doubles is exact.
\<close>

datatype json =
    JNull
  | JBool bool
  | JNum int
  | JStr string
  | JArr "json list"
  | JObj "(string \<times> json) list"

text \<open>Property access \<open>v.k\<close> on a value that is neither \<open>null\<close> nor \<open>undefined\<close>: only objects
  carry the properties read by the program.\<close>

fun getProp :: "json \<Rightarrow> string \<Rightarrow> json option" where
  "getProp (JObj kvs) k = map_of kvs k"
| "getProp _ k = None"

text \<open>Optional chaining \<open>v?.k\<close>: \<open>undefined\<close> when \<open>v\<close> is \<open>null\<close> or \<open>undefined\<close>.\<close>

fun optChain :: "json option \<Rightarrow> string \<Rightarrow> json option" where
  "optChain None k = None"
| "optChain (Some JNull) k = None"
| "optChain (Some v) k = getProp v k"

text \<open>Truthiness, as \<open>!v\<close> and \<open>v || w\<close> test it.\<close>

fun truthy :: "json option \<Rightarrow> bool" where
  "truthy None = False"
| "truthy (Some JNull) = False"
| "truthy (Some (JBool b)) = b"
| "truthy (Some (JNum n)) = (n \<noteq> 0)"
| "truthy (Some (JStr s)) = (s \<noteq> [])"
| "truthy (Some (JArr xs)) = True"
| "truthy (Some (JObj kvs)) = True"

fun truthyStr :: "string option \<Rightarrow> bool" where
  "truthyStr None = False"
| "truthyStr (Some s) = (s \<noteq> [])"

text \<open>\<open>v || ""\<close> on a string that may be \<open>null\<close> or \<open>undefined\<close>.\<close>

fun orEmpty :: "string option \<Rightarrow> string" where
  "orEmpty None = []"
| "orEmpty (Some s) = s"

text \<open>
  The library functions the program calls and whose code is not part of it. Each model
  function below takes them as a \<open>runtime\<close>; theorems state what they need of them.
  \<^item> \<open>localeCompare a b\<close> is \<open>a.localeCompare(b)\<close>: negative, zero or positive;
  \<^item> \<open>hmacSha256Hex key msg\<close> is
    \<open>crypto.createHmac("sha256", key).update(msg).digest("hex")\<close>;
  \<^item> \<open>JSON_parse\<close> is \<open>JSON.parse\<close>, \<open>None\<close> when it throws;
  \<^item> \<open>toNumber s\<close> is what \<open>JSON.stringify\<close> prints for \<open>Number(s)\<close>;
  \<^item> \<open>toUpperCase\<close> and \<open>trim\<close> are the string methods of these names.
\<close>

record runtime =
  localeCompare :: "string \<Rightarrow> string \<Rightarrow> int"
  hmacSha256Hex :: "string \<Rightarrow> string \<Rightarrow> string"
  JSON_parse :: "string \<Rightarrow> json option"
  toNumber :: "string \<Rightarrow> json"
  toUpperCase :: "string \<Rightarrow> string"
  trim :: "string \<Rightarrow> string"

text \<open>
  What is thrown. The program builds its own errors as \<open>new Error(JSON.stringify(obj))\<close>;
  \<open>Error obj\<close> stands for the error whose message prints \<open>obj\<close>. \<open>Rejected msg\<close> is
  the rejection of a call that leaves the process (\<open>fetch\<close>, the session storage).
\<close>

datatype error =
    Error json
  | RangeError
  | TypeError
  | Rejected string

text \<open>\<open>String(err?.message || err)\<close>, the printed object standing for its text.\<close>

fun errorDetails :: "error \<Rightarrow> json" where
  "errorDetails (Error obj) = obj"
| "errorDetails RangeError = JStr ''RangeError''"
| "errorDetails TypeError = JStr ''TypeError''"
| "errorDetails (Rejected msg) = JStr (if msg = [] then ''Error'' else msg)"

text \<open>\<open>data ?? text\<close>\<close>

fun nullish :: "json \<Rightarrow> string \<Rightarrow> json" where
  "nullish JNull t = JStr t"
| "nullish d t = d"

text \<open>A property whose value is \<open>undefined\<close> is left out by \<open>JSON.stringify\<close>.\<close>

fun optField :: "string \<Rightarrow> json option \<Rightarrow> (string \<times> json) list" where
  "optField k None = []"
| "optField k (Some v) = [(k, v)]"

text \<open>A template literal prints \<open>undefined\<close> for a variable that is not set.\<close>

fun tmpl :: "string option \<Rightarrow> string" where
  "tmpl None = ''undefined''"
| "tmpl (Some s) = s"

text \<open>The environment of the process, \<open>process.env\<close>.\<close>

type_synonym env = "string \<Rightarrow> string option"

text \<open>An HTTP response as the program reads it: \<open>resp.ok\<close>, \<open>resp.status\<close>,
  \<open>resp.statusText\<close> and the body \<open>await resp.text()\<close>.\<close>

record httpResponse =
  resp_ok :: bool
  resp_status :: int
  resp_statusText :: string
  resp_text :: string

text \<open>\<open>let data = null; try { data = JSON.parse(text) } catch {}\<close>\<close>

definition parseOrNull :: "runtime \<Rightarrow> string \<Rightarrow> json" where
  "parseOrNull rt t = (case JSON_parse rt t of None \<Rightarrow> JNull | Some d \<Rightarrow> d)"

text \<open>What a handler returns: the status, the JSON body and the \<open>Cache-Control\<close> header.\<close>

record response =
  status :: nat
  body :: json
  cacheControl :: "string option"

text \<open>\<open>Response.json(obj, { status })\<close>\<close>

definition jsonResponse :: "nat \<Rightarrow> (string \<times> json) list \<Rightarrow> response" where
  "jsonResponse st obj = \<lparr>status = st, body = JObj obj, cacheControl = None\<rparr>"

section \<open>Query parameters\<close>

text \<open>\<open>URLSearchParams\<close>: the pairs of the query string in the order they were written;
  a key may occur more than once.\<close>

type_synonym searchParams = "(string \<times> string) list"

definition getParam :: "searchParams \<Rightarrow> string \<Rightarrow> string option" where
  "getParam ps k = map_of ps k"

definition deleteParam :: "searchParams \<Rightarrow> string \<Rightarrow> searchParams" where
  "deleteParam ps k = filter (\<lambda>kv. fst kv \<noteq> k) ps"

section \<open>Proxy signature verification\<close>

text \<open>
  \<open>[...params.entries()].sort(([a], [b]) => a.localeCompare(b))\<close>. \<open>Array.prototype.sort\<close>
  is stable: an entry moves in front of another one only when the comparator says so.
  For a comparator that orders the keys consistently this result is the one insertion
  computes, each entry stopping at the first entry it does not follow.
\<close>

fun insertEntry :: "(string \<Rightarrow> string \<Rightarrow> int) \<Rightarrow> string \<times> string \<Rightarrow> searchParams \<Rightarrow> searchParams" where
  "insertEntry cmp x [] = [x]"
| "insertEntry cmp x (y # ys) =
     (if cmp (fst x) (fst y) \<le> 0 then x # y # ys else y # insertEntry cmp x ys)"

fun sortEntries :: "(string \<Rightarrow> string \<Rightarrow> int) \<Rightarrow> searchParams \<Rightarrow> searchParams" where
  "sortEntries cmp [] = []"
| "sortEntries cmp (x # xs) = insertEntry cmp x (sortEntries cmp xs)"

text \<open>\<open>sorted.map(([k, v]) => `${k}=${v}`).join("")\<close>\<close>

definition joinEntries :: "searchParams \<Rightarrow> string" where
  "joinEntries es = concat (map (\<lambda>kv. fst kv @ ''='' @ snd kv) es)"

definition signedMessage :: "(string \<Rightarrow> string \<Rightarrow> int) \<Rightarrow> searchParams \<Rightarrow> string" where
  "signedMessage cmp ps = joinEntries (sortEntries cmp (deleteParam ps ''signature''))"

text \<open>\<open>crypto.timingSafeEqual(a, b)\<close> throws a \<open>RangeError\<close> when the two buffers differ in
  byte length and compares them byte by byte otherwise.\<close>

definition timingSafeEqual :: "string \<Rightarrow> string \<Rightarrow> error + bool" where
  "timingSafeEqual a b = (if length a \<noteq> length b then Inl RangeError else Inr (a = b))"

text \<open>\<open>verifyProxySignature\<close> of \<open>apps.location-stock/route.ts\<close> (the same body is in
  \<open>part_000\<close> and in the second route of \<open>part_002\<close>); \<open>secret\<close> is \<open>PROXY_SECRET\<close>, the
  empty string when the variable is not set.\<close>

definition verifyProxySignature :: "runtime \<Rightarrow> string \<Rightarrow> searchParams \<Rightarrow> bool" where
  "verifyProxySignature rt secret ps =
     (case getParam ps ''signature'' of
        None \<Rightarrow> False
      | Some signature \<Rightarrow>
          if signature = [] then False
          else
            let digest = hmacSha256Hex rt secret (signedMessage (localeCompare rt) ps)
            in (case timingSafeEqual digest signature of
                  Inl e \<Rightarrow> False
                | Inr b \<Rightarrow> b))"

text \<open>The variant of the first route of \<open>part_002\<close>: \<open>PROXY_SECRET\<close> is read without a
  default, so it is \<open>undefined\<close> when the variable is not set and \<open>createHmac\<close> then throws
  a \<open>TypeError\<close>; the comparison is not inside a \<open>try\<close>.\<close>

definition verifyProxySignature_nocatch ::
    "runtime \<Rightarrow> string option \<Rightarrow> searchParams \<Rightarrow> error + bool" where
  "verifyProxySignature_nocatch rt secret ps =
     (case getParam ps ''signature'' of
        None \<Rightarrow> Inr False
      | Some signature \<Rightarrow>
          if signature = [] then Inr False
          else (case secret of
                  None \<Rightarrow> Inl TypeError
                | Some key \<Rightarrow>
                    timingSafeEqual
                      (hmacSha256Hex rt key (signedMessage (localeCompare rt) ps)) signature))"

text \<open>The variant of \<open>part_001\<close> and \<open>part_003\<close>: \<open>if (!PROXY_SECRET) return false\<close> comes
  first, and what follows is the body of \<open>verifyProxySignature\<close>.\<close>

definition verifyProxySignature_checked :: "runtime \<Rightarrow> string \<Rightarrow> searchParams \<Rightarrow> bool" where
  "verifyProxySignature_checked rt secret ps =
     (if secret = [] then False else verifyProxySignature rt secret ps)"

section \<open>Orderings of keys\<close>

text \<open>Comparison of two sequences of numbers, position by position.\<close>

fun lexCompare :: "nat list \<Rightarrow> nat list \<Rightarrow> int" where
  "lexCompare [] [] = 0"
| "lexCompare [] (y # ys) = - 1"
| "lexCompare (x # xs) [] = 1"
| "lexCompare (x # xs) (y # ys) =
     (if x < y then - 1 else if y < x then 1 else lexCompare xs ys)"

text \<open>The ordering the specification names: byte by byte, which on UTF-8 is the ordering
  by code point.\<close>

definition codepointCompare :: "string \<Rightarrow> string \<Rightarrow> int" where
  "codepointCompare a b = lexCompare (map of_char a) (map of_char b)"

text \<open>
  What a stable sort needs of its comparator on the keys \<open>K\<close> it meets: any two keys are
  comparable and the comparison is transitive. \<open>strictOn\<close> adds that no two different
  keys compare equal.
\<close>

definition consistentOn :: "(string \<Rightarrow> string \<Rightarrow> int) \<Rightarrow> string set \<Rightarrow> bool" where
  "consistentOn cmp K =
     ((\<forall>a\<in>K. \<forall>b\<in>K. cmp a b \<le> 0 \<or> cmp b a \<le> 0) \<and>
      (\<forall>a\<in>K. \<forall>b\<in>K. \<forall>c\<in>K. cmp a b \<le> 0 \<longrightarrow> cmp b c \<le> 0 \<longrightarrow> cmp a c \<le> 0))"

definition strictOn :: "(string \<Rightarrow> string \<Rightarrow> int) \<Rightarrow> string set \<Rightarrow> bool" where
  "strictOn cmp K = (\<forall>a\<in>K. \<forall>b\<in>K. cmp a b \<le> 0 \<longrightarrow> cmp b a \<le> 0 \<longrightarrow> a = b)"

text \<open>Two comparators put the keys \<open>K\<close> in the same order.\<close>

definition agreeOn ::
    "(string \<Rightarrow> string \<Rightarrow> int) \<Rightarrow> (string \<Rightarrow> string \<Rightarrow> int) \<Rightarrow> string set \<Rightarrow> bool" where
  "agreeOn c1 c2 K = (\<forall>a\<in>K. \<forall>b\<in>K. (c1 a b \<le> 0) = (c2 a b \<le> 0))"

definition keyLe :: "(string \<Rightarrow> string \<Rightarrow> int) \<Rightarrow> string \<times> string \<Rightarrow> string \<times> string \<Rightarrow> bool" where
  "keyLe cmp x y = (cmp (fst x) (fst y) \<le> 0)"

section \<open>Country and location\<close>

definition UK_LOCATION_ID :: "env \<Rightarrow> string option" where
  "UK_LOCATION_ID env = env ''UK_LOCATION_ID''"

definition US_LOCATION_ID :: "env \<Rightarrow> string option" where
  "US_LOCATION_ID env = env ''US_LOCATION_ID''"

text \<open>\<open>process.env.SHOPIFY_API_VERSION || "2026-01"\<close>\<close>

definition API_VERSION :: "env \<Rightarrow> string" where
  "API_VERSION env =
     (if truthyStr (env ''SHOPIFY_API_VERSION'') then orEmpty (env ''SHOPIFY_API_VERSION'')
      else ''2026-01'')"

text \<open>\<open>(url.searchParams.get("country") || "").toUpperCase()\<close>\<close>

definition countryOf :: "runtime \<Rightarrow> searchParams \<Rightarrow> string" where
  "countryOf rt ps = toUpperCase rt (orEmpty (getParam ps ''country''))"

text \<open>The conditional every handler computes \<open>locationId\<close> with.\<close>

definition locationIdFor :: "env \<Rightarrow> string \<Rightarrow> string option" where
  "locationIdFor env country =
     (if country = ''GB'' \<or> country = ''UK'' then UK_LOCATION_ID env
      else if country = ''US'' then US_LOCATION_ID env
      else UK_LOCATION_ID env)"

text \<open>\<open>/^\d+$/.test(variantId)\<close>: one or more ASCII digits and nothing else.\<close>

definition isDigits :: "string \<Rightarrow> bool" where
  "isDigits s = (s \<noteq> [] \<and> list_all (\<lambda>c. c \<in> set ''0123456789'') s)"

text \<open>\<open>Number(x)\<close> as the response prints it; \<open>Number(undefined)\<close> is \<open>NaN\<close>, printed
  \<open>null\<close>.\<close>

fun numberOf :: "runtime \<Rightarrow> string option \<Rightarrow> json" where
  "numberOf rt None = JNull"
| "numberOf rt (Some s) = toNumber rt s"

section \<open>Inventory lookup\<close>

text \<open>The request to the Admin API: the URL, the \<open>X-Shopify-Access-Token\<close> header and the
  two variables of the query.\<close>

record adminRequest =
  req_url :: string
  req_token :: "string option"
  variantGid :: string
  locationGid :: string

type_synonym adminApi = "adminRequest \<Rightarrow> error + httpResponse"

text \<open>\<open>data?.data?.productVariant?.inventoryItem?.inventoryLevel?.available\<close>\<close>

definition availableOf :: "json \<Rightarrow> json option" where
  "availableOf data =
     optChain (optChain (optChain (optChain (optChain (Some data)
       ''data'') ''productVariant'') ''inventoryItem'') ''inventoryLevel'') ''available''"

text \<open>What every variant of \<open>getStockAtLocation\<close> does with the response.\<close>

definition stockOfResponse :: "runtime \<Rightarrow> httpResponse \<Rightarrow> error + int" where
  "stockOfResponse rt resp =
     (let data = parseOrNull rt (resp_text resp);
          errors = optChain (Some data) ''errors''
      in if \<not> resp_ok resp \<or> truthy errors
         then Inl (Error (JObj ([(''status'', JNum (resp_status resp)),
                                 (''statusText'', JStr (resp_statusText resp))]
                                @ optField ''errors'' errors
                                @ [(''body'', nullish data (resp_text resp))])))
         else
           let qty = availableOf data
           in Inr (case qty of Some (JNum n) \<Rightarrow> n | _ \<Rightarrow> 0))"

text \<open>\<open>apps.location-stock/route.ts\<close>: the static token of the environment.\<close>

definition SHOP :: "env \<Rightarrow> string option" where
  "SHOP env = env ''SHOPIFY_SHOP''"

definition ADMIN_TOKEN :: "env \<Rightarrow> string option" where
  "ADMIN_TOKEN env = env ''SHOPIFY_OFFLINE_TOKEN''"

definition PROXY_SECRET :: "env \<Rightarrow> string" where
  "PROXY_SECRET env = orEmpty (env ''SHOPIFY_API_SECRET'')"

definition getStockAtLocation ::
    "runtime \<Rightarrow> env \<Rightarrow> adminApi \<Rightarrow> string \<Rightarrow> string option \<Rightarrow> error + int" where
  "getStockAtLocation rt env fetch variantId locationId =
     (case fetch \<lparr>req_url = ''https://'' @ tmpl (SHOP env) @ ''/admin/api/'' @ API_VERSION env
                              @ ''/graphql.json'',
                  req_token = ADMIN_TOKEN env,
                  variantGid = ''gid://shopify/ProductVariant/'' @ variantId,
                  locationGid = ''gid://shopify/Location/'' @ tmpl locationId\<rparr> of
        Inl e \<Rightarrow> Inl e
      | Inr resp \<Rightarrow> stockOfResponse rt resp)"

definition loader :: "runtime \<Rightarrow> env \<Rightarrow> adminApi \<Rightarrow> searchParams \<Rightarrow> response" where
  "loader rt env fetch ps =
     (if \<not> truthyStr (SHOP env) \<or> \<not> truthyStr (ADMIN_TOKEN env)
      then jsonResponse 500 [(''error'', JStr ''Missing SHOPIFY_SHOP or HOST token'')]
      else if \<not> verifyProxySignature rt (PROXY_SECRET env) ps
      then jsonResponse 401 [(''error'', JStr ''Invalid signature'')]
      else
        let variantId = orEmpty (getParam ps ''variant'');
            country = countryOf rt ps
        in if \<not> isDigits variantId
           then jsonResponse 400 [(''error'', JStr ''Missing/invalid variant'')]
           else
             let locationId = locationIdFor env country
             in (case getStockAtLocation rt env fetch variantId locationId of
                   Inr qty \<Rightarrow>
                     \<lparr>status = 200,
                      body = JObj [(''variantId'', toNumber rt variantId),
                                   (''country'', JStr country),
                                   (''locationId'', numberOf rt locationId),
                                   (''qty'', JNum qty),
                                   (''available'', JBool (qty > 0))],
                      cacheControl = Some ''public, max-age=15''\<rparr>
                 | Inl err \<Rightarrow>
                     jsonResponse 502 [(''error'', JStr ''Admin API error''),
                                       (''details'', errorDetails err)]))"

section \<open>Strategy B: client credentials with a cache\<close>

text \<open>\<open>let cachedToken: { token: string; expiresAtMs: number } | null = null\<close>. The token
  is whatever truthy value the response carries under \<open>access_token\<close>.\<close>

record tokenEntry =
  token :: json
  expiresAtMs :: int

text \<open>
  The state a call of \<open>getAdminAccessToken\<close> starts from and leaves behind: the cache of
  the process and the number of requests sent to the token endpoint so far. The endpoint
  answers its \<open>n\<close>-th request with \<open>endpoint n\<close>.
\<close>

record process =
  cachedToken :: "tokenEntry option"
  exchanges :: nat

type_synonym tokenEndpoint = "nat \<Rightarrow> error + httpResponse"

definition getAdminAccessToken ::
    "runtime \<Rightarrow> tokenEndpoint \<Rightarrow> int \<Rightarrow> process \<Rightarrow> (error + json) \<times> process" where
  "getAdminAccessToken rt endpoint now st =
     (case (case cachedToken st of
              None \<Rightarrow> None
            | Some c \<Rightarrow> if expiresAtMs c - now > 60000 then Some (token c) else None) of
        Some t \<Rightarrow> (Inr t, st)
      | None \<Rightarrow>
          let st1 = st\<lparr>exchanges := Suc (exchanges st)\<rparr>
          in (case endpoint (exchanges st) of
                Inl e \<Rightarrow> (Inl e, st1)
              | Inr resp \<Rightarrow>
                  let data = parseOrNull rt (resp_text resp)
                  in if \<not> resp_ok resp
                     then (Inl (Error (JObj [(''where'', JStr ''token_exchange''),
                                             (''status'', JNum (resp_status resp)),
                                             (''statusText'', JStr (resp_statusText resp)),
                                             (''body'', nullish data (resp_text resp))])), st1)
                     else
                       let tok = optChain (Some data) ''access_token'';
                           expiresIn = optChain (Some data) ''expires_in''
                       in (case (if truthy tok then tok else None) of
                             None \<Rightarrow>
                               (Inl (Error (JObj [(''where'', JStr ''token_exchange''),
                                                  (''error'', JStr ''No access_token in response''),
                                                  (''body'', nullish data (resp_text resp))])), st1)
                           | Some t \<Rightarrow>
                               let ttlMs = (case expiresIn of
                                              Some (JNum n) \<Rightarrow>
                                                if n > 0 then n * 1000 else 20 * 60 * 1000
                                            | _ \<Rightarrow> 20 * 60 * 1000)
                               in (Inr t,
                                   st1\<lparr>cachedToken :=
                                         Some \<lparr>token = t, expiresAtMs = now + ttlMs\<rparr>\<rparr>))))"

text \<open>The lifetime the specification gives a token: \<open>expires_in\<close> seconds when present and
  positive, twenty minutes otherwise.\<close>

definition specTtlMs :: "json option \<Rightarrow> int" where
  "specTtlMs expiresIn =
     (case expiresIn of Some (JNum n) \<Rightarrow> if 0 < n then 1000 * n else 1200000 | _ \<Rightarrow> 1200000)"

text \<open>The cache answers at \<open>now\<close>: an entry with more than 60,000 ms left.\<close>

definition fresh :: "process \<Rightarrow> int \<Rightarrow> bool" where
  "fresh st now =
     (case cachedToken st of None \<Rightarrow> False | Some c \<Rightarrow> 60000 < expiresAtMs c - now)"

text \<open>The exchange succeeded: a success status and a truthy \<open>access_token\<close> in the body.\<close>

definition exchangeOk :: "runtime \<Rightarrow> error + httpResponse \<Rightarrow> bool" where
  "exchangeOk rt r =
     (case r of
        Inl e \<Rightarrow> False
      | Inr resp \<Rightarrow>
          resp_ok resp \<and> truthy (optChain (Some (parseOrNull rt (resp_text resp))) ''access_token''))"

text \<open>Two calls one after the other, at \<open>now1\<close> and at \<open>now2\<close>: what each returned and
  the state left behind.\<close>

definition twoCalls ::
    "runtime \<Rightarrow> tokenEndpoint \<Rightarrow> int \<Rightarrow> int \<Rightarrow> process
       \<Rightarrow> (error + json) \<times> (error + json) \<times> process" where
  "twoCalls rt endpoint now1 now2 st =
     (case getAdminAccessToken rt endpoint now1 st of
        (r1, st1) \<Rightarrow>
          (case getAdminAccessToken rt endpoint now2 st1 of
             (r2, st2) \<Rightarrow> (r1, r2, st2)))"

section \<open>Strategy C: the offline session of a shop\<close>

record session =
  session_id :: string
  session_shop :: string
  isOnline :: bool
  accessToken :: "string option"

type_synonym sessionStorage = "string \<Rightarrow> error + session list"

text \<open>\<open>s && s.isOnline === false && s.accessToken\<close>\<close>

definition offlineWithToken :: "session \<Rightarrow> bool" where
  "offlineWithToken s = (isOnline s = False \<and> truthyStr (accessToken s))"

definition getOfflineAccessTokenForShop :: "sessionStorage \<Rightarrow> string \<Rightarrow> error + string option" where
  "getOfflineAccessTokenForShop findSessionsByShop shop =
     (case findSessionsByShop shop of
        Inl e \<Rightarrow> Inl e
      | Inr sessions \<Rightarrow>
          let offline = find offlineWithToken sessions
          in Inr (case offline of
                    None \<Rightarrow> None
                  | Some s \<Rightarrow> if truthyStr (accessToken s) then accessToken s else None))"

definition getStockAtLocation_shop ::
    "runtime \<Rightarrow> env \<Rightarrow> adminApi \<Rightarrow> string \<Rightarrow> string \<Rightarrow> string \<Rightarrow> string option \<Rightarrow> error + int" where
  "getStockAtLocation_shop rt env fetch shop accessTok variantId locationId =
     (case fetch \<lparr>req_url = ''https://'' @ shop @ ''/admin/api/'' @ API_VERSION env
                              @ ''/graphql.json'',
                  req_token = Some accessTok,
                  variantGid = ''gid://shopify/ProductVariant/'' @ variantId,
                  locationGid = ''gid://shopify/Location/'' @ tmpl locationId\<rparr> of
        Inl e \<Rightarrow> Inl e
      | Inr resp \<Rightarrow> stockOfResponse rt resp)"

text \<open>The handler of \<open>part_001\<close>. The lookup of the token is awaited outside the \<open>try\<close>, so a
  rejection of the storage leaves the handler as it is.\<close>

definition loader_offline ::
    "runtime \<Rightarrow> env \<Rightarrow> sessionStorage \<Rightarrow> adminApi \<Rightarrow> searchParams \<Rightarrow> error + response" where
  "loader_offline rt env findSessionsByShop fetch ps =
     (if \<not> verifyProxySignature_checked rt (PROXY_SECRET env) ps
      then Inr (jsonResponse 401 [(''error'', JStr ''Invalid signature'')])
      else
        let variantId = orEmpty (getParam ps ''variant'');
            country = countryOf rt ps;
            shop = trim rt (orEmpty (getParam ps ''shop''))
        in if shop = [] then Inr (jsonResponse 400 [(''error'', JStr ''Missing shop'')])
           else if \<not> isDigits variantId
           then Inr (jsonResponse 400 [(''error'', JStr ''Missing/invalid variant'')])
           else
             let locationId = locationIdFor env country
             in (case getOfflineAccessTokenForShop findSessionsByShop shop of
                   Inl e \<Rightarrow> Inl e
                 | Inr None \<Rightarrow>
                     Inr (jsonResponse 401
                            [(''error'', JStr ''No offline session stored for shop''),
                             (''shop'', JStr shop),
                             (''hint'', JStr ''Open the embedded app in Shopify admin (or reinstall) to complete offline auth and store a session in Prisma.'')])
                 | Inr (Some accessTok) \<Rightarrow>
                     (case getStockAtLocation_shop rt env fetch shop accessTok variantId locationId of
                        Inr qty \<Rightarrow>
                          Inr \<lparr>status = 200,
                               body = JObj [(''variantId'', toNumber rt variantId),
                                            (''country'', JStr country),
                                            (''shop'', JStr shop),
                                            (''locationId'', numberOf rt locationId),
                                            (''qty'', JNum qty),
                                            (''available'', JBool (qty > 0))],
                               cacheControl = Some ''public, max-age=15''\<rparr>
                      | Inl err \<Rightarrow>
                          Inr (jsonResponse 502 [(''error'', JStr ''Admin API error''),
                                                 (''details'', errorDetails err)]))))"

section \<open>A runtime to evaluate with\<close>

text \<open>
  Closed examples need the library functions at concrete arguments. \<open>sampleRuntime\<close> gives
  each of them a value that the real runtime gives on the strings the examples use:
  \<^item> \<open>asciiLetterCollate\<close> compares two words of ASCII letters as the root (and English)
    collation behind \<open>localeCompare\<close> does: by their letters without regard to case
    first and, when that does not decide, lower case before upper case;
  \<^item> \<open>asciiUpper\<close> and \<open>asciiTrim\<close> act on ASCII letters and ASCII white space;
  \<^item> \<open>decimalNumber\<close> reads a string of digits;
  \<^item> \<open>sampleParse\<close> reads the response bodies the examples use;
  \<^item> \<open>sampleDigest\<close> has the shape of a hex digest, 64 characters of \<open>0-9a-f\<close>, and is
    not HMAC-SHA256: the bytes of key and message in hexadecimal, padded with \<open>0\<close>.
  The theorems about the program are stated for every runtime and say what they need of
  it; the sample runtime only instantiates them.
\<close>

definition lowerCode :: "char \<Rightarrow> nat" where
  "lowerCode c = (let n = of_char c in if 65 \<le> n \<and> n \<le> 90 then n + 32 else n)"

definition caseRank :: "char \<Rightarrow> nat" where
  "caseRank c = (let n = of_char c :: nat in if 65 \<le> n \<and> n \<le> 90 then 1 else 0)"

definition asciiLetterCollate :: "string \<Rightarrow> string \<Rightarrow> int" where
  "asciiLetterCollate a b =
     (let p = lexCompare (map lowerCode a) (map lowerCode b)
      in if p \<noteq> 0 then p else lexCompare (map caseRank a) (map caseRank b))"

definition asciiUpperChar :: "char \<Rightarrow> char" where
  "asciiUpperChar c =
     (case map_of (zip ''abcdefghijklmnopqrstuvwxyz'' ''ABCDEFGHIJKLMNOPQRSTUVWXYZ'') c of
        None \<Rightarrow> c | Some u \<Rightarrow> u)"

definition asciiUpper :: "string \<Rightarrow> string" where
  "asciiUpper s = map asciiUpperChar s"

definition asciiSpace :: "char \<Rightarrow> bool" where
  "asciiSpace c = (of_char c \<in> {9, 10, 11, 12, 13, 32 :: nat})"

definition asciiTrim :: "string \<Rightarrow> string" where
  "asciiTrim s = rev (dropWhile asciiSpace (rev (dropWhile asciiSpace s)))"

definition decimalNumber :: "string \<Rightarrow> json" where
  "decimalNumber s =
     (if isDigits s then JNum (foldl (\<lambda>n c. 10 * n + (int (of_char c) - 48)) 0 s) else JNull)"

definition hexByte :: "char \<Rightarrow> string" where
  "hexByte c = (let n = of_char c :: nat
                in [''0123456789abcdef'' ! (n div 16), ''0123456789abcdef'' ! (n mod 16)])"

definition sampleDigest :: "string \<Rightarrow> string \<Rightarrow> string" where
  "sampleDigest key msg =
     take 64 (concat (map hexByte (key @ ''|'' @ msg))
              @ ''0000000000000000000000000000000000000000000000000000000000000000'')"

definition sampleParse :: "string \<Rightarrow> json option" where
  \<open>sampleParse t =
     (if t = ''{"access_token":"t1","expires_in":30}''
      then Some (JObj [(''access_token'', JStr ''t1''), (''expires_in'', JNum 30)])
      else if t = ''{"access_token":"t2","expires_in":86399}''
      then Some (JObj [(''access_token'', JStr ''t2''), (''expires_in'', JNum 86399)])
      else if t = ''{"access_token":"t3"}''
      then Some (JObj [(''access_token'', JStr ''t3'')])
      else if t = ''{"error":"invalid_client"}''
      then Some (JObj [(''error'', JStr ''invalid_client'')])
      else if t = ''{"data":{"productVariant":{"inventoryItem":{"inventoryLevel":{"available":null}}}}}''
      then Some (JObj [(''data'', JObj [(''productVariant'', JObj [(''inventoryItem'',
             JObj [(''inventoryLevel'', JObj [(''available'', JNull)])])])])])
      else if t = ''{"data":{"productVariant":{"inventoryItem":{"inventoryLevel":{"available":7}}}}}''
      then Some (JObj [(''data'', JObj [(''productVariant'', JObj [(''inventoryItem'',
             JObj [(''inventoryLevel'', JObj [(''available'', JNum 7)])])])])])
      else None)\<close>

definition sampleRuntime :: runtime where
  "sampleRuntime =
     \<lparr>localeCompare = asciiLetterCollate,
      hmacSha256Hex = sampleDigest,
      JSON_parse = sampleParse,
      toNumber = decimalNumber,
      toUpperCase = asciiUpper,
      trim = asciiTrim\<rparr>"

text \<open>
  \<open>localeCompare\<close> returns 0 on two strings that are canonically equivalent in Unicode,
  as ECMAScript requires of it: the letter U+00E9 (the bytes C3 A9) and the letter \<open>e\<close>
  followed by the combining accent U+0301 (the bytes 65 CC 81) are such a pair.
  \<open>canonicalCollate\<close> is \<open>asciiLetterCollate\<close> after every U+00E9 has been put in this
  decomposed form, and \<open>canonicalRuntime\<close> is the sample runtime with this comparator.
\<close>

fun decomposeEAcute :: "string \<Rightarrow> string" where
  "decomposeEAcute (a # b # r) =
     (if a = CHR 0xC3 \<and> b = CHR 0xA9
      then CHR ''e'' # CHR 0xCC # CHR 0x81 # decomposeEAcute r
      else a # decomposeEAcute (b # r))"
| "decomposeEAcute r = r"

definition canonicalCollate :: "string \<Rightarrow> string \<Rightarrow> int" where
  "canonicalCollate a b = asciiLetterCollate (decomposeEAcute a) (decomposeEAcute b)"

definition canonicalRuntime :: runtime where
  "canonicalRuntime = sampleRuntime\<lparr>localeCompare := canonicalCollate\<rparr>"

text \<open>An environment with every variable set, for the closed examples.\<close>

definition sampleEnv :: env where
  "sampleEnv =
     map_of [(''SHOPIFY_SHOP'', ''s.myshopify.com''), (''SHOPIFY_OFFLINE_TOKEN'', ''shpat_0''),
             (''SHOPIFY_API_SECRET'', ''shhh''), (''UK_LOCATION_ID'', ''111''),
             (''US_LOCATION_ID'', ''222'')]"

section \<open>Properties\<close>

subsection \<open>Sorting with a comparator\<close>

lemma set_insertEntry: "set (insertEntry cmp x ys) = insert x (set ys)"
  by (induction ys) auto

lemma mset_insertEntry: "mset (insertEntry cmp x ys) = add_mset x (mset ys)"
  by (induction ys) auto

lemma mset_sortEntries: "mset (sortEntries cmp xs) = mset xs"
  by (induction xs) (auto simp: mset_insertEntry)

lemma set_sortEntries: "set (sortEntries cmp xs) = set xs"
  by (induction xs) (auto simp: set_insertEntry)

lemma insertEntry_cong:
  assumes "\<forall>y\<in>set ys. (c1 (fst x) (fst y) \<le> 0) = (c2 (fst x) (fst y) \<le> 0)"
  shows "insertEntry c1 x ys = insertEntry c2 x ys"
  using assms by (induction ys) auto

lemma sortEntries_cong:
  assumes "agreeOn c1 c2 (fst ` set xs)"
  shows "sortEntries c1 xs = sortEntries c2 xs"
  using assms
proof (induction xs)
  case Nil
  then show ?case by simp
next
  case (Cons x xs)
  then have IH: "sortEntries c1 xs = sortEntries c2 xs" by (simp add: agreeOn_def)
  have "\<forall>y\<in>set (sortEntries c2 xs). (c1 (fst x) (fst y) \<le> 0) = (c2 (fst x) (fst y) \<le> 0)"
    using Cons.prems by (simp add: set_sortEntries agreeOn_def)
  then show ?case using IH by (simp add: insertEntry_cong)
qed

lemma agreeOn_subset: "agreeOn c1 c2 K \<Longrightarrow> K' \<subseteq> K \<Longrightarrow> agreeOn c1 c2 K'"
  unfolding agreeOn_def by (meson subsetD)

lemma upper_U: "asciiUpperChar x = CHR ''U'' \<longleftrightarrow> x = CHR ''u'' \<or> x = CHR ''U''"
  by (auto simp: asciiUpperChar_def split: if_splits)

lemma upper_S: "asciiUpperChar x = CHR ''S'' \<longleftrightarrow> x = CHR ''s'' \<or> x = CHR ''S''"
  by (auto simp: asciiUpperChar_def split: if_splits)

lemma asciiUpper_US: "asciiUpper c = ''US'' \<longleftrightarrow> c \<in> {''US'', ''Us'', ''uS'', ''us''}"
proof (cases c)
  case Nil
  then show ?thesis by (simp add: asciiUpper_def)
next
  case (Cons x r)
  show ?thesis
  proof (cases r)
    case Nil
    with Cons show ?thesis by (simp add: asciiUpper_def)
  next
    case (Cons y r')
    with \<open>c = x # r\<close> show ?thesis
      by (cases r') (auto simp: asciiUpper_def upper_U upper_S)
  qed
qed

lemma sorted_insertEntry:
  assumes "consistentOn cmp K" "fst x \<in> K" "fst ` set ys \<subseteq> K" "sorted_wrt (keyLe cmp) ys"
  shows "sorted_wrt (keyLe cmp) (insertEntry cmp x ys)"
  using assms
proof (induction ys)
  case Nil
  then show ?case by simp
next
  case (Cons y ys)
  show ?case
  proof (cases "cmp (fst x) (fst y) \<le> 0")
    case True
    have "keyLe cmp x z" if "z \<in> set ys" for z
    proof -
      from Cons.prems(4) that have "cmp (fst y) (fst z) \<le> 0" by (auto simp: keyLe_def)
      moreover from that Cons.prems(3) have "fst z \<in> K" "fst y \<in> K" by auto
      ultimately show ?thesis using True Cons.prems(1,2)
        unfolding consistentOn_def keyLe_def by blast
    qed
    with True Cons.prems(4) show ?thesis by (auto simp: keyLe_def)
  next
    case False
    with Cons.prems have "cmp (fst y) (fst x) \<le> 0"
      unfolding consistentOn_def by (metis image_subset_iff list.set_intros(1))
    with False Cons show ?thesis
      by (auto simp: set_insertEntry keyLe_def)
  qed
qed

lemma sorted_sortEntries:
  assumes "consistentOn cmp K" "fst ` set xs \<subseteq> K"
  shows "sorted_wrt (keyLe cmp) (sortEntries cmp xs)"
  using assms
proof (induction xs)
  case Nil
  then show ?case by simp
next
  case (Cons x xs)
  then have "sorted_wrt (keyLe cmp) (sortEntries cmp xs)" by auto
  moreover from Cons.prems have "fst x \<in> K" "fst ` set (sortEntries cmp xs) \<subseteq> K"
    by (auto simp: set_sortEntries)
  ultimately show ?case using Cons.prems(1) by (simp add: sorted_insertEntry)
qed

lemma sorted_unique:
  assumes "sorted_wrt (keyLe cmp) xs" "sorted_wrt (keyLe cmp) ys" "mset xs = mset ys"
    and "distinct (map fst xs)"
    and "strictOn cmp (fst ` set xs)"
  shows "xs = ys"
  using assms
proof (induction xs arbitrary: ys)
  case Nil
  then show ?case by simp
next
  case (Cons x xs)
  from Cons.prems(3) obtain y ys' where ys: "ys = y # ys'" by (cases ys) auto
  have sets: "set (x # xs) = set ys" using Cons.prems(3) by (rule mset_eq_setD)
  have xy: "x = y"
  proof (rule ccontr)
    assume ne: "x \<noteq> y"
    from sets ys ne have x_in: "x \<in> set ys'" and y_in: "y \<in> set xs" by auto
    from Cons.prems(2) ys x_in have 1: "cmp (fst y) (fst x) \<le> 0"
      by (simp add: keyLe_def)
    from Cons.prems(1) y_in have 2: "cmp (fst x) (fst y) \<le> 0"
      by (simp add: keyLe_def)
    have "fst x \<in> fst ` set (x # xs)" "fst y \<in> fst ` set (x # xs)"
      using y_in by simp_all
    with 1 2 Cons.prems(5) have "fst x = fst y" unfolding strictOn_def by blast
    moreover from Cons.prems(4) have "fst x \<notin> fst ` set xs" by simp
    ultimately show False using y_in by (metis imageI)
  qed
  have "xs = ys'"
  proof (rule Cons.IH)
    show "mset xs = mset ys'" using Cons.prems(3) ys xy by simp
    show "sorted_wrt (keyLe cmp) xs" using Cons.prems(1) by simp
    show "sorted_wrt (keyLe cmp) ys'" using Cons.prems(2) ys by simp
    show "distinct (map fst xs)" using Cons.prems(4) by simp
    show "strictOn cmp (fst ` set xs)"
      using Cons.prems(5) by (simp add: strictOn_def)
  qed
  with xy ys show ?case by simp
qed

lemma verify_iff:
  "verifyProxySignature rt secret ps =
     (case getParam ps ''signature'' of None \<Rightarrow> False
      | Some sig \<Rightarrow> sig \<noteq> [] \<and> hmacSha256Hex rt secret (signedMessage (localeCompare rt) ps) = sig)"
  by (auto simp: verifyProxySignature_def timingSafeEqual_def Let_def split: option.splits)

lemma deleteParam_keys: "fst ` set (deleteParam ps k) \<subseteq> fst ` set ps"
  by (auto simp: deleteParam_def)

lemma consistentOn_subset: "consistentOn cmp K \<Longrightarrow> K' \<subseteq> K \<Longrightarrow> consistentOn cmp K'"
  unfolding consistentOn_def by (meson subsetD)

lemma strictOn_subset: "strictOn cmp K \<Longrightarrow> K' \<subseteq> K \<Longrightarrow> strictOn cmp K'"
  unfolding strictOn_def by (meson subsetD)

lemmas sample_simps =
  consistentOn_def strictOn_def agreeOn_def codepointCompare_def sampleRuntime_def
  asciiLetterCollate_def lowerCode_def caseRank_def sampleDigest_def hexByte_def

lemmas message_simps = getParam_def signedMessage_def deleteParam_def joinEntries_def

subsection \<open>The signed message and the comparison\<close>

lemma signedMessage_as_written:
  "signedMessage cmp ps =
     concat (map (\<lambda>(k, v). k @ ''='' @ v)
       (sortEntries cmp (filter (\<lambda>(k, v). k \<noteq> ''signature'') ps)))"
  by (simp add: signedMessage_def joinEntries_def deleteParam_def case_prod_unfold)

text \<open>
  C1. With a signature parameter present, \<open>verifyProxySignature\<close> drops every
  \<open>signature\<close> entry, sorts the remaining entries by key (the result is a rearrangement
  of them, in ascending order of the comparator whenever the comparator orders the keys
  consistently), joins them as \<open>key=value\<close> with nothing in between, takes the hex
  HMAC-SHA256 of that message under the secret and answers true exactly when the digest
  equals the signature. For \<open>foo=1\<close>, \<open>bar=2\<close> and the secret \<open>shhh\<close> the accepted
  signature is the digest of \<open>bar=2foo=1\<close>.
\<close>

theorem verifyProxySignature_hmac_of_sorted_pairs:
  assumes "getParam ps ''signature'' = Some sig"
  shows "(verifyProxySignature rt secret ps \<longleftrightarrow>
            sig \<noteq> [] \<and>
            hmacSha256Hex rt secret
              (concat (map (\<lambda>(k, v). k @ ''='' @ v)
                 (sortEntries (localeCompare rt) (filter (\<lambda>(k, v). k \<noteq> ''signature'') ps)))) = sig)
       \<and> mset (sortEntries (localeCompare rt) (filter (\<lambda>(k, v). k \<noteq> ''signature'') ps))
           = mset (filter (\<lambda>(k, v). k \<noteq> ''signature'') ps)
       \<and> (consistentOn (localeCompare rt) (fst ` set ps) \<longrightarrow>
            sorted_wrt (\<lambda>x y. localeCompare rt (fst x) (fst y) \<le> 0)
              (sortEntries (localeCompare rt) (filter (\<lambda>(k, v). k \<noteq> ''signature'') ps)))
       \<and> (0 < localeCompare rt ''foo'' ''bar'' \<longrightarrow>
            (verifyProxySignature rt ''shhh''
               [(''foo'', ''1''), (''bar'', ''2''), (''signature'', sig)] \<longleftrightarrow>
             sig \<noteq> [] \<and> sig = hmacSha256Hex rt ''shhh'' ''bar=2foo=1''))"
proof (intro conjI impI)
  show "verifyProxySignature rt secret ps \<longleftrightarrow>
          sig \<noteq> [] \<and>
          hmacSha256Hex rt secret
            (concat (map (\<lambda>(k, v). k @ ''='' @ v)
               (sortEntries (localeCompare rt) (filter (\<lambda>(k, v). k \<noteq> ''signature'') ps)))) = sig"
    using assms by (simp add: verify_iff signedMessage_as_written)
  show "mset (sortEntries (localeCompare rt) (filter (\<lambda>(k, v). k \<noteq> ''signature'') ps))
          = mset (filter (\<lambda>(k, v). k \<noteq> ''signature'') ps)"
    by (rule mset_sortEntries)
next
  assume c: "consistentOn (localeCompare rt) (fst ` set ps)"
  have "fst ` set (filter (\<lambda>(k, v). k \<noteq> ''signature'') ps) \<subseteq> fst ` set ps" by auto
  from sorted_sortEntries [OF c this]
  show "sorted_wrt (\<lambda>x y. localeCompare rt (fst x) (fst y) \<le> 0)
          (sortEntries (localeCompare rt) (filter (\<lambda>(k, v). k \<noteq> ''signature'') ps))"
    by (simp add: keyLe_def [abs_def])
next
  assume "0 < localeCompare rt ''foo'' ''bar''"
  then show "verifyProxySignature rt ''shhh''
               [(''foo'', ''1''), (''bar'', ''2''), (''signature'', sig)] \<longleftrightarrow>
             sig \<noteq> [] \<and> sig = hmacSha256Hex rt ''shhh'' ''bar=2foo=1''"
    by (auto simp: verify_iff getParam_def signedMessage_def deleteParam_def joinEntries_def)
qed

theorem verifyProxySignature_hmac_of_sorted_pairs_witness:
  "getParam [(''foo'', ''1''), (''bar'', ''2''),
             (''signature'', ''736868687c6261723d32666f6f3d310000000000000000000000000000000000'')]
     ''signature''
     = Some ''736868687c6261723d32666f6f3d310000000000000000000000000000000000''
   \<and> consistentOn (localeCompare sampleRuntime)
        (fst ` set [(''foo'', ''1''), (''bar'', ''2''),
             (''signature'', ''736868687c6261723d32666f6f3d310000000000000000000000000000000000'')])
   \<and> 0 < localeCompare sampleRuntime ''foo'' ''bar''
   \<and> hmacSha256Hex sampleRuntime ''shhh'' ''bar=2foo=1''
        = ''736868687c6261723d32666f6f3d310000000000000000000000000000000000''
   \<and> verifyProxySignature sampleRuntime ''shhh''
        [(''foo'', ''1''), (''bar'', ''2''),
         (''signature'', ''736868687c6261723d32666f6f3d310000000000000000000000000000000000'')]
   \<and> sorted_wrt (\<lambda>x y. localeCompare sampleRuntime (fst x) (fst y) \<le> 0)
        (sortEntries (localeCompare sampleRuntime)
           (filter (\<lambda>(k, v). k \<noteq> ''signature'')
              [(''foo'', ''1''), (''bar'', ''2''),
               (''signature'', ''736868687c6261723d32666f6f3d310000000000000000000000000000000000'')]))"
proof -
  let ?sig = "''736868687c6261723d32666f6f3d310000000000000000000000000000000000''"
  let ?ps = "[(''foo'', ''1''), (''bar'', ''2''), (''signature'', ?sig)]"
  have g: "getParam ?ps ''signature'' = Some ?sig"
    by (simp add: getParam_def)
  have c: "consistentOn (localeCompare sampleRuntime) (fst ` set ?ps)"
    by (simp add: sample_simps message_simps verify_iff)
  have f: "0 < localeCompare sampleRuntime ''foo'' ''bar''"
    by (simp add: sample_simps message_simps verify_iff)
  have h: "hmacSha256Hex sampleRuntime ''shhh'' ''bar=2foo=1'' = ?sig"
    by (simp add: sample_simps message_simps verify_iff)
  note t = verifyProxySignature_hmac_of_sorted_pairs
             [OF g, where rt = sampleRuntime and secret = "''shhh''"]
  from t f h have v: "verifyProxySignature sampleRuntime ''shhh'' ?ps"
    by simp
  from t c have s: "sorted_wrt (\<lambda>x y. localeCompare sampleRuntime (fst x) (fst y) \<le> 0)
        (sortEntries (localeCompare sampleRuntime) (filter (\<lambda>(k, v). k \<noteq> ''signature'') ?ps))"
    by blast
  from g c f h v s show ?thesis by blast
qed

text \<open>
  Where the comparator of the runtime orders the keys of a request as the byte order
  does, the message signed is the one the byte order gives, and so is the answer.
\<close>

lemma signedMessage_codepoint_if_orders_agree:
  assumes "agreeOn (localeCompare rt) codepointCompare (fst ` set ps)"
  shows "signedMessage (localeCompare rt) ps = signedMessage codepointCompare ps"
    and "verifyProxySignature rt secret ps
           = verifyProxySignature (rt\<lparr>localeCompare := codepointCompare\<rparr>) secret ps"
proof -
  have "sortEntries (localeCompare rt) (deleteParam ps ''signature'')
          = sortEntries codepointCompare (deleteParam ps ''signature'')"
    by (rule sortEntries_cong) (rule agreeOn_subset [OF assms deleteParam_keys])
  then show m: "signedMessage (localeCompare rt) ps = signedMessage codepointCompare ps"
    by (simp add: signedMessage_def)
  show "verifyProxySignature rt secret ps
          = verifyProxySignature (rt\<lparr>localeCompare := codepointCompare\<rparr>) secret ps"
    by (simp add: verify_iff m cong: option.case_cong)
qed

text \<open>
  C2. The remaining pairs are to be sorted by key in byte (code point) order, the order
  in which the platform that signs the request sorts them. \<open>verifyProxySignature\<close> sorts
  them with \<open>localeCompare\<close>, the collation of the locale of the host, and the two orders
  differ: every runtime whose \<open>localeCompare\<close> puts \<open>a\<close> before \<open>B\<close> signs the parameters
  \<open>a=1\<close>, \<open>B=2\<close> as \<open>a=1B=2\<close>, where the byte order gives \<open>B=2a=1\<close>, and refuses the
  request that carries the digest of \<open>B=2a=1\<close> as its signature.
\<close>

theorem signedMessage_not_in_codepoint_order:
  "signedMessage codepointCompare [(''a'', ''1''), (''B'', ''2'')] = ''B=2a=1''
   \<and> (localeCompare rt ''a'' ''B'' \<le> 0 \<longrightarrow>
        signedMessage (localeCompare rt) [(''a'', ''1''), (''B'', ''2'')] = ''a=1B=2'')
   \<and> (localeCompare rt ''a'' ''B'' \<le> 0
        \<and> hmacSha256Hex rt secret ''a=1B=2'' \<noteq> hmacSha256Hex rt secret ''B=2a=1'' \<longrightarrow>
        \<not> verifyProxySignature rt secret
            [(''a'', ''1''), (''B'', ''2''),
             (''signature'', hmacSha256Hex rt secret ''B=2a=1'')])"
  by (simp add: verify_iff message_simps codepointCompare_def)

theorem signedMessage_not_in_codepoint_order_witness:
  "localeCompare sampleRuntime ''a'' ''B'' \<le> 0
   \<and> hmacSha256Hex sampleRuntime ''shhh'' ''a=1B=2''
        \<noteq> hmacSha256Hex sampleRuntime ''shhh'' ''B=2a=1''
   \<and> signedMessage codepointCompare [(''a'', ''1''), (''B'', ''2'')] = ''B=2a=1''
   \<and> signedMessage (localeCompare sampleRuntime) [(''a'', ''1''), (''B'', ''2'')] = ''a=1B=2''
   \<and> \<not> verifyProxySignature sampleRuntime ''shhh''
         [(''a'', ''1''), (''B'', ''2''),
          (''signature'', hmacSha256Hex sampleRuntime ''shhh'' ''B=2a=1'')]"
proof -
  have c: "localeCompare sampleRuntime ''a'' ''B'' \<le> 0"
    by (simp add: sample_simps)
  have d: "hmacSha256Hex sampleRuntime ''shhh'' ''a=1B=2''
             \<noteq> hmacSha256Hex sampleRuntime ''shhh'' ''B=2a=1''"
    by (simp add: sample_simps)
  note t = signedMessage_not_in_codepoint_order [where rt = sampleRuntime and secret = "''shhh''"]
  from t have m: "signedMessage codepointCompare [(''a'', ''1''), (''B'', ''2'')] = ''B=2a=1''"
    by blast
  from t c have l: "signedMessage (localeCompare sampleRuntime) [(''a'', ''1''), (''B'', ''2'')]
                      = ''a=1B=2''"
    by blast
  from t c d have v: "\<not> verifyProxySignature sampleRuntime ''shhh''
         [(''a'', ''1''), (''B'', ''2''),
          (''signature'', hmacSha256Hex sampleRuntime ''shhh'' ''B=2a=1'')]"
    by blast
  from c d m l v show ?thesis by blast
qed

subsection \<open>The order in which the parameters were written\<close>

text \<open>
  With no key repeated and a comparator that orders the keys of the request
  consistently and strictly (different keys never compare equal), two requests holding
  the same pairs, in whatever order, get the same answer.
\<close>

lemma verifyProxySignature_permutation:
  assumes "mset ps = mset qs"
    and "distinct (map fst ps)"
    and "consistentOn (localeCompare rt) (fst ` set ps)"
    and "strictOn (localeCompare rt) (fst ` set ps)"
  shows "verifyProxySignature rt secret ps = verifyProxySignature rt secret qs"
proof -
  have sets: "set ps = set qs" using assms(1) by (rule mset_eq_setD)
  have e: "mset (map fst ps) = mset (map fst qs)" using assms(1) by simp
  have dq: "distinct (map fst qs)" using mset_eq_imp_distinct_iff [OF e] assms(2) by blast
  have "map_of ps = map_of qs" using map_of_inject_set [OF assms(2) dq] sets by simp
  then have g: "getParam ps ''signature'' = getParam qs ''signature''"
    by (simp add: getParam_def)
  let ?xs = "sortEntries (localeCompare rt) (deleteParam ps ''signature'')"
  let ?ys = "sortEntries (localeCompare rt) (deleteParam qs ''signature'')"
  have keys: "fst ` set (deleteParam ps ''signature'') \<subseteq> fst ` set ps"
             "fst ` set (deleteParam qs ''signature'') \<subseteq> fst ` set ps"
    using sets by (auto simp: deleteParam_def)
  have "?xs = ?ys"
  proof (rule sorted_unique)
    show "sorted_wrt (keyLe (localeCompare rt)) ?xs"
      using assms(3) keys(1) by (rule sorted_sortEntries)
    show "sorted_wrt (keyLe (localeCompare rt)) ?ys"
      using assms(3) keys(2) by (rule sorted_sortEntries)
    show "mset ?xs = mset ?ys"
      using assms(1) by (simp add: mset_sortEntries deleteParam_def)
    have "distinct (map fst (deleteParam ps ''signature''))"
      using assms(2) unfolding deleteParam_def by (rule distinct_map_filter)
    moreover have "mset (map fst ?xs) = mset (map fst (deleteParam ps ''signature''))"
      by (simp add: mset_sortEntries)
    ultimately show "distinct (map fst ?xs)" using mset_eq_imp_distinct_iff by blast
    show "strictOn (localeCompare rt) (fst ` set ?xs)"
      using assms(4) keys(1) by (simp add: set_sortEntries strictOn_subset)
  qed
  then have m: "signedMessage (localeCompare rt) ps = signedMessage (localeCompare rt) qs"
    by (simp add: signedMessage_def)
  show ?thesis unfolding verify_iff g m ..
qed

text \<open>The byte order is such a comparator on every set of keys.\<close>

lemma lexCompare_Nil_le: "lexCompare [] ys \<le> 0"
  by (cases ys) simp_all

lemma lexCompare_Cons_Nil_le: "\<not> lexCompare (x # xs) [] \<le> 0"
  by simp

lemma lexCompare_Cons_le:
  "lexCompare (x # xs) (y # ys) \<le> 0 \<longleftrightarrow> x < y \<or> (x = y \<and> lexCompare xs ys \<le> 0)"
  by auto

lemma lexCompare_total: "lexCompare xs ys \<le> 0 \<or> lexCompare ys xs \<le> 0"
proof (induction xs arbitrary: ys)
  case Nil
  then show ?case by (simp add: lexCompare_Nil_le)
next
  case (Cons x xs)
  show ?case
  proof (cases ys)
    case Nil
    then show ?thesis by (simp add: lexCompare_Nil_le)
  next
    case (Cons y ys')
    with Cons.IH [of ys'] show ?thesis
      unfolding Cons lexCompare_Cons_le by (cases x y rule: linorder_cases) simp_all
  qed
qed

lemma lexCompare_antisym:
  "lexCompare xs ys \<le> 0 \<Longrightarrow> lexCompare ys xs \<le> 0 \<Longrightarrow> xs = ys"
proof (induction xs arbitrary: ys)
  case Nil
  then show ?case by (cases ys) simp_all
next
  case (Cons x xs)
  show ?case
  proof (cases ys)
    case Nil
    with Cons.prems show ?thesis by simp
  next
    case (Cons y ys')
    from Cons.prems have "x < y \<or> (x = y \<and> lexCompare xs ys' \<le> 0)"
      and "y < x \<or> (y = x \<and> lexCompare ys' xs \<le> 0)"
      unfolding Cons lexCompare_Cons_le by simp_all
    then have "x = y" "lexCompare xs ys' \<le> 0" "lexCompare ys' xs \<le> 0"
      by (cases x y rule: linorder_cases; simp)+
    with Cons.IH [of ys'] Cons show ?thesis by simp
  qed
qed

lemma lexCompare_trans:
  "lexCompare xs ys \<le> 0 \<Longrightarrow> lexCompare ys zs \<le> 0 \<Longrightarrow> lexCompare xs zs \<le> 0"
proof (induction xs arbitrary: ys zs)
  case Nil
  then show ?case by (simp add: lexCompare_Nil_le)
next
  case (Cons x xs)
  from Cons.prems(1) obtain y ys' where ys: "ys = y # ys'" by (cases ys) simp_all
  from Cons.prems(2) ys obtain z zs' where zs: "zs = z # zs'" by (cases zs) simp_all
  from Cons.prems(1) have a: "x < y \<or> (x = y \<and> lexCompare xs ys' \<le> 0)"
    unfolding ys lexCompare_Cons_le .
  from Cons.prems(2) have b: "y < z \<or> (y = z \<and> lexCompare ys' zs' \<le> 0)"
    unfolding ys zs lexCompare_Cons_le .
  have "x < z \<or> (x = z \<and> lexCompare xs zs' \<le> 0)"
  proof (cases "x < z")
    case True
    then show ?thesis by simp
  next
    case False
    with a b have "x = y" "y = z" "lexCompare xs ys' \<le> 0" "lexCompare ys' zs' \<le> 0"
      by auto
    with Cons.IH [of ys' zs'] show ?thesis by simp
  qed
  then show ?case unfolding zs lexCompare_Cons_le .
qed

lemma codepointCompare_consistent: "consistentOn codepointCompare K"
  unfolding consistentOn_def codepointCompare_def
  using lexCompare_total lexCompare_trans by blast

lemma codepointCompare_strict: "strictOn codepointCompare K"
proof -
  have "a = b" if "codepointCompare a b \<le> 0" "codepointCompare b a \<le> 0" for a b
  proof -
    from that have "map of_char a = (map of_char b :: nat list)"
      unfolding codepointCompare_def by (rule lexCompare_antisym)
    then show ?thesis by (simp add: inj_map_eq_map inj_of_char)
  qed
  then show ?thesis unfolding strictOn_def by blast
qed

lemma verifyProxySignature_permutation_codepoint:
  assumes "mset ps = mset qs" and "distinct (map fst ps)"
  shows "verifyProxySignature (rt\<lparr>localeCompare := codepointCompare\<rparr>) secret ps
           = verifyProxySignature (rt\<lparr>localeCompare := codepointCompare\<rparr>) secret qs"
  using assms
  by (intro verifyProxySignature_permutation)
     (simp_all add: codepointCompare_consistent codepointCompare_strict)

text \<open>
  Entries whose keys compare equal keep the order in which they were written, so with
  a comparator that does not tell two keys apart the message depends on that order.
\<close>

lemma tied_keys_order_matters:
  assumes "k1 \<noteq> ''signature''" "k2 \<noteq> ''signature''"
    and "localeCompare rt k1 k2 = 0" "localeCompare rt k2 k1 = 0"
    and "hmacSha256Hex rt secret (k1 @ ''='' @ v1 @ k2 @ ''='' @ v2) \<noteq> []"
    and "hmacSha256Hex rt secret (k2 @ ''='' @ v2 @ k1 @ ''='' @ v1)
           \<noteq> hmacSha256Hex rt secret (k1 @ ''='' @ v1 @ k2 @ ''='' @ v2)"
  shows "verifyProxySignature rt secret
           [(k1, v1), (k2, v2),
            (''signature'', hmacSha256Hex rt secret (k1 @ ''='' @ v1 @ k2 @ ''='' @ v2))]
         \<and> \<not> verifyProxySignature rt secret
           [(k2, v2), (k1, v1),
            (''signature'', hmacSha256Hex rt secret (k1 @ ''='' @ v1 @ k2 @ ''='' @ v2))]"
  using assms
  by (simp add: verify_iff getParam_def signedMessage_def deleteParam_def joinEntries_def)

text \<open>
  C8. The answer is not to depend on the order in which the parameters were written,
  and under the byte order it does not (\<open>verifyProxySignature_permutation_codepoint\<close>).
  \<open>verifyProxySignature\<close> sorts with \<open>localeCompare\<close>, which is zero on canonically
  equivalent keys, and the sort is stable. For the two keys U+00E9 and \<open>e\<close> U+0301, which
  are different strings, every runtime whose \<open>localeCompare\<close> is zero on them accepts the
  request that lists them in one order and refuses the request that lists the same pairs,
  with the same signature, in the other order; with the byte order in place of
  \<open>localeCompare\<close> both requests get the same answer.
\<close>

theorem verifyProxySignature_order_of_equivalent_keys:
  "localeCompare rt [CHR 0xC3, CHR 0xA9] [CHR ''e'', CHR 0xCC, CHR 0x81] = 0
   \<and> localeCompare rt [CHR ''e'', CHR 0xCC, CHR 0x81] [CHR 0xC3, CHR 0xA9] = 0
   \<and> hmacSha256Hex rt secret
         ([CHR 0xC3, CHR 0xA9] @ ''='' @ ''1'' @ [CHR ''e'', CHR 0xCC, CHR 0x81] @ ''='' @ ''2'') \<noteq> []
   \<and> hmacSha256Hex rt secret
         ([CHR ''e'', CHR 0xCC, CHR 0x81] @ ''='' @ ''2'' @ [CHR 0xC3, CHR 0xA9] @ ''='' @ ''1'')
       \<noteq> hmacSha256Hex rt secret
         ([CHR 0xC3, CHR 0xA9] @ ''='' @ ''1'' @ [CHR ''e'', CHR 0xCC, CHR 0x81] @ ''='' @ ''2'')
   \<longrightarrow>
     distinct (map fst
       [([CHR 0xC3, CHR 0xA9], ''1''), ([CHR ''e'', CHR 0xCC, CHR 0x81], ''2''),
        (''signature'', hmacSha256Hex rt secret
           ([CHR 0xC3, CHR 0xA9] @ ''='' @ ''1'' @ [CHR ''e'', CHR 0xCC, CHR 0x81] @ ''='' @ ''2''))])
     \<and> mset
       [([CHR 0xC3, CHR 0xA9], ''1''), ([CHR ''e'', CHR 0xCC, CHR 0x81], ''2''),
        (''signature'', hmacSha256Hex rt secret
           ([CHR 0xC3, CHR 0xA9] @ ''='' @ ''1'' @ [CHR ''e'', CHR 0xCC, CHR 0x81] @ ''='' @ ''2''))]
       = mset
       [([CHR ''e'', CHR 0xCC, CHR 0x81], ''2''), ([CHR 0xC3, CHR 0xA9], ''1''),
        (''signature'', hmacSha256Hex rt secret
           ([CHR 0xC3, CHR 0xA9] @ ''='' @ ''1'' @ [CHR ''e'', CHR 0xCC, CHR 0x81] @ ''='' @ ''2''))]
     \<and> verifyProxySignature rt secret
       [([CHR 0xC3, CHR 0xA9], ''1''), ([CHR ''e'', CHR 0xCC, CHR 0x81], ''2''),
        (''signature'', hmacSha256Hex rt secret
           ([CHR 0xC3, CHR 0xA9] @ ''='' @ ''1'' @ [CHR ''e'', CHR 0xCC, CHR 0x81] @ ''='' @ ''2''))]
     \<and> \<not> verifyProxySignature rt secret
       [([CHR ''e'', CHR 0xCC, CHR 0x81], ''2''), ([CHR 0xC3, CHR 0xA9], ''1''),
        (''signature'', hmacSha256Hex rt secret
           ([CHR 0xC3, CHR 0xA9] @ ''='' @ ''1'' @ [CHR ''e'', CHR 0xCC, CHR 0x81] @ ''='' @ ''2''))]
     \<and> verifyProxySignature (rt\<lparr>localeCompare := codepointCompare\<rparr>) secret
       [([CHR 0xC3, CHR 0xA9], ''1''), ([CHR ''e'', CHR 0xCC, CHR 0x81], ''2''),
        (''signature'', hmacSha256Hex rt secret
           ([CHR 0xC3, CHR 0xA9] @ ''='' @ ''1'' @ [CHR ''e'', CHR 0xCC, CHR 0x81] @ ''='' @ ''2''))]
       = verifyProxySignature (rt\<lparr>localeCompare := codepointCompare\<rparr>) secret
       [([CHR ''e'', CHR 0xCC, CHR 0x81], ''2''), ([CHR 0xC3, CHR 0xA9], ''1''),
        (''signature'', hmacSha256Hex rt secret
           ([CHR 0xC3, CHR 0xA9] @ ''='' @ ''1'' @ [CHR ''e'', CHR 0xCC, CHR 0x81] @ ''='' @ ''2''))]"
proof (intro impI)
  let ?kN = "[CHR 0xC3, CHR 0xA9]"
  let ?kD = "[CHR ''e'', CHR 0xCC, CHR 0x81]"
  let ?sig = "hmacSha256Hex rt secret (?kN @ ''='' @ ''1'' @ ?kD @ ''='' @ ''2'')"
  let ?P = "[(?kN, ''1''), (?kD, ''2''), (''signature'', ?sig)]"
  let ?Q = "[(?kD, ''2''), (?kN, ''1''), (''signature'', ?sig)]"
  assume a: "localeCompare rt ?kN ?kD = 0
   \<and> localeCompare rt ?kD ?kN = 0
   \<and> hmacSha256Hex rt secret (?kN @ ''='' @ ''1'' @ ?kD @ ''='' @ ''2'') \<noteq> []
   \<and> hmacSha256Hex rt secret (?kD @ ''='' @ ''2'' @ ?kN @ ''='' @ ''1'')
       \<noteq> hmacSha256Hex rt secret (?kN @ ''='' @ ''1'' @ ?kD @ ''='' @ ''2'')"
  have d: "distinct (map fst ?P)" by simp
  have m: "mset ?P = mset ?Q" by (simp add: add_mset_commute)
  have n1: "?kN \<noteq> ''signature''" and n2: "?kD \<noteq> ''signature''" by simp_all
  from a have v: "verifyProxySignature rt secret ?P \<and> \<not> verifyProxySignature rt secret ?Q"
    by (intro tied_keys_order_matters [OF n1 n2]) simp_all
  have c: "verifyProxySignature (rt\<lparr>localeCompare := codepointCompare\<rparr>) secret ?P
             = verifyProxySignature (rt\<lparr>localeCompare := codepointCompare\<rparr>) secret ?Q"
    using m d by (rule verifyProxySignature_permutation_codepoint)
  from d m v c show "distinct (map fst ?P) \<and> mset ?P = mset ?Q
     \<and> verifyProxySignature rt secret ?P \<and> \<not> verifyProxySignature rt secret ?Q
     \<and> verifyProxySignature (rt\<lparr>localeCompare := codepointCompare\<rparr>) secret ?P
       = verifyProxySignature (rt\<lparr>localeCompare := codepointCompare\<rparr>) secret ?Q"
    by blast
qed

theorem verifyProxySignature_order_of_equivalent_keys_witness:
  "[CHR 0xC3, CHR 0xA9] \<noteq> [CHR ''e'', CHR 0xCC, CHR 0x81]
   \<and> localeCompare canonicalRuntime [CHR 0xC3, CHR 0xA9] [CHR ''e'', CHR 0xCC, CHR 0x81] = 0
   \<and> localeCompare canonicalRuntime [CHR ''e'', CHR 0xCC, CHR 0x81] [CHR 0xC3, CHR 0xA9] = 0
   \<and> codepointCompare [CHR ''e'', CHR 0xCC, CHR 0x81] [CHR 0xC3, CHR 0xA9] < 0
   \<and> verifyProxySignature canonicalRuntime ''shhh''
       [([CHR 0xC3, CHR 0xA9], ''1''), ([CHR ''e'', CHR 0xCC, CHR 0x81], ''2''),
        (''signature'', hmacSha256Hex canonicalRuntime ''shhh''
           ([CHR 0xC3, CHR 0xA9] @ ''='' @ ''1'' @ [CHR ''e'', CHR 0xCC, CHR 0x81] @ ''='' @ ''2''))]
   \<and> \<not> verifyProxySignature canonicalRuntime ''shhh''
       [([CHR ''e'', CHR 0xCC, CHR 0x81], ''2''), ([CHR 0xC3, CHR 0xA9], ''1''),
        (''signature'', hmacSha256Hex canonicalRuntime ''shhh''
           ([CHR 0xC3, CHR 0xA9] @ ''='' @ ''1'' @ [CHR ''e'', CHR 0xCC, CHR 0x81] @ ''='' @ ''2''))]"
proof -
  let ?kN = "[CHR 0xC3, CHR 0xA9]"
  let ?kD = "[CHR ''e'', CHR 0xCC, CHR 0x81]"
  have ne: "?kN \<noteq> ?kD" by simp
  have t1: "localeCompare canonicalRuntime ?kN ?kD = 0"
    by (simp add: canonicalRuntime_def canonicalCollate_def sample_simps)
  have t2: "localeCompare canonicalRuntime ?kD ?kN = 0"
    by (simp add: canonicalRuntime_def canonicalCollate_def sample_simps)
  have cp: "codepointCompare ?kD ?kN < 0"
    by (simp add: codepointCompare_def)
  have h1: "hmacSha256Hex canonicalRuntime ''shhh'' (?kN @ ''='' @ ''1'' @ ?kD @ ''='' @ ''2'') \<noteq> []"
    by (simp add: canonicalRuntime_def sample_simps)
  have h2: "hmacSha256Hex canonicalRuntime ''shhh'' (?kD @ ''='' @ ''2'' @ ?kN @ ''='' @ ''1'')
       \<noteq> hmacSha256Hex canonicalRuntime ''shhh'' (?kN @ ''='' @ ''1'' @ ?kD @ ''='' @ ''2'')"
    by (simp add: canonicalRuntime_def sample_simps)
  note t = verifyProxySignature_order_of_equivalent_keys
             [where rt = canonicalRuntime and secret = "''shhh''", THEN mp,
              OF conjI [OF t1 conjI [OF t2 conjI [OF h1 h2]]]]
  from t have v1: "verifyProxySignature canonicalRuntime ''shhh''
       [(?kN, ''1''), (?kD, ''2''),
        (''signature'', hmacSha256Hex canonicalRuntime ''shhh''
           (?kN @ ''='' @ ''1'' @ ?kD @ ''='' @ ''2''))]"
    by blast
  from t have v2: "\<not> verifyProxySignature canonicalRuntime ''shhh''
       [(?kD, ''2''), (?kN, ''1''),
        (''signature'', hmacSha256Hex canonicalRuntime ''shhh''
           (?kN @ ''='' @ ''1'' @ ?kD @ ''='' @ ''2''))]"
    by blast
  from ne t1 t2 cp v1 v2 show ?thesis by blast
qed

subsection \<open>Failing closed\<close>

lemma verifyProxySignature_missing_signature:
  "getParam ps ''signature'' = None \<Longrightarrow> \<not> verifyProxySignature rt secret ps"
  by (simp add: verifyProxySignature_def)

lemma verifyProxySignature_wrong_length:
  "getParam ps ''signature'' = Some sig \<Longrightarrow>
   length sig \<noteq> length (hmacSha256Hex rt secret (signedMessage (localeCompare rt) ps)) \<Longrightarrow>
   \<not> verifyProxySignature rt secret ps"
  by (auto simp: verify_iff)

lemma verifyProxySignature_checked_empty_secret:
  "\<not> verifyProxySignature_checked rt [] ps"
  by (simp add: verifyProxySignature_checked_def)

text \<open>
  C3. The claim says \<open>verifyProxySignature\<close> answers false, and never throws, when no
  secret is configured and when the signature has another length than the digest. The
  variants of \<open>part_001\<close> and \<open>part_003\<close> refuse an empty secret
  (\<open>verifyProxySignature_checked_empty_secret\<close>) and every variant but one catches what
  the comparison throws. The route \<open>apps.location-stock/route.ts\<close> does not look at the
  secret: with \<open>SHOPIFY_API_SECRET\<close> not set it accepts the request whose signature is
  the digest of the empty message under the empty key. The first route of \<open>part_002\<close>
  compares outside a \<open>try\<close>: a signature of three characters makes it throw a
  \<open>RangeError\<close>, since no digest has that length.
\<close>

theorem verifyProxySignature_not_fail_closed:
  "(hmacSha256Hex rt [] [] \<noteq> [] \<longrightarrow>
      verifyProxySignature rt (PROXY_SECRET (\<lambda>v. None))
        [(''signature'', hmacSha256Hex rt [] [])])
   \<and> (length (hmacSha256Hex rt key []) \<noteq> 3 \<longrightarrow>
        verifyProxySignature_nocatch rt (Some key) [(''signature'', ''abc'')]
          = Inl RangeError)"
  by (simp add: verify_iff verifyProxySignature_nocatch_def timingSafeEqual_def PROXY_SECRET_def
      message_simps)

theorem verifyProxySignature_not_fail_closed_witness:
  "hmacSha256Hex sampleRuntime [] [] \<noteq> []
   \<and> verifyProxySignature sampleRuntime (PROXY_SECRET (\<lambda>v. None))
        [(''signature'', hmacSha256Hex sampleRuntime [] [])]
   \<and> length (hmacSha256Hex sampleRuntime ''shhh'' []) \<noteq> 3
   \<and> verifyProxySignature_nocatch sampleRuntime (Some ''shhh'') [(''signature'', ''abc'')]
        = Inl RangeError"
proof -
  have 1: "hmacSha256Hex sampleRuntime [] [] \<noteq> []"
    by (simp add: sample_simps)
  have 2: "length (hmacSha256Hex sampleRuntime ''shhh'' []) \<noteq> 3"
    by (simp add: sample_simps)
  note t = verifyProxySignature_not_fail_closed [where rt = sampleRuntime and key = "''shhh''"]
  from t 1 have 3: "verifyProxySignature sampleRuntime (PROXY_SECRET (\<lambda>v. None))
        [(''signature'', hmacSha256Hex sampleRuntime [] [])]"
    by blast
  from t 2 have 4: "verifyProxySignature_nocatch sampleRuntime (Some ''shhh'')
        [(''signature'', ''abc'')] = Inl RangeError"
    by blast
  from 1 2 3 4 show ?thesis by blast
qed

subsection \<open>The token cache\<close>

lemma getAdminAccessToken_hit:
  assumes "cachedToken st = Some c" "60000 < expiresAtMs c - now"
  shows "getAdminAccessToken rt ep now st = (Inr (token c), st)"
  using assms by (simp add: getAdminAccessToken_def)

lemma ttl_specTtlMs:
  "(case e of Some (JNum n) \<Rightarrow> if n > 0 then n * 1000 else 20 * 60 * 1000
            | _ \<Rightarrow> 20 * 60 * (1000::int)) = specTtlMs e"
  by (simp add: specTtlMs_def split: option.splits json.splits)

lemma getAdminAccessToken_success:
  assumes "\<not> fresh st now"
    and "ep (exchanges st) = Inr resp"
    and "resp_ok resp"
    and "optChain (Some (parseOrNull rt (resp_text resp))) ''access_token'' = Some t"
    and "truthy (Some t)"
  shows "getAdminAccessToken rt ep now st =
           (Inr t,
            \<lparr>cachedToken =
               Some \<lparr>token = t,
                     expiresAtMs = now + specTtlMs
                       (optChain (Some (parseOrNull rt (resp_text resp))) ''expires_in'')\<rparr>,
             exchanges = Suc (exchanges st)\<rparr>)"
proof -
  have miss: "(case cachedToken st of None \<Rightarrow> None
               | Some c \<Rightarrow> if expiresAtMs c - now > 60000 then Some (token c) else None) = None"
    using assms(1) by (auto simp: fresh_def split: option.splits)
  show ?thesis
    unfolding getAdminAccessToken_def miss
    using assms(2-5) by (simp add: Let_def ttl_specTtlMs)
qed

lemma getAdminAccessToken_failure:
  assumes "\<not> fresh st now"
    and "\<not> exchangeOk rt (ep (exchanges st))"
  shows "\<exists>e. getAdminAccessToken rt ep now st = (Inl e, st\<lparr>exchanges := Suc (exchanges st)\<rparr>)"
proof -
  have miss: "(case cachedToken st of None \<Rightarrow> None
               | Some c \<Rightarrow> if expiresAtMs c - now > 60000 then Some (token c) else None) = None"
    using assms(1) by (auto simp: fresh_def split: option.splits)
  show ?thesis
  proof (cases "ep (exchanges st)")
    case (Inl e)
    then show ?thesis unfolding getAdminAccessToken_def miss by (simp add: Let_def)
  next
    case (Inr resp)
    with assms(2) have "\<not> resp_ok resp
        \<or> \<not> truthy (optChain (Some (parseOrNull rt (resp_text resp))) ''access_token'')"
      by (simp add: exchangeOk_def)
    with Inr show ?thesis unfolding getAdminAccessToken_def miss by (auto simp: Let_def)
  qed
qed

lemma getAdminAccessToken_miss_counts:
  assumes "\<not> fresh st now"
  shows "exchanges (snd (getAdminAccessToken rt ep now st)) = Suc (exchanges st)"
proof -
  have miss: "(case cachedToken st of None \<Rightarrow> None
               | Some c \<Rightarrow> if expiresAtMs c - now > 60000 then Some (token c) else None) = None"
    using assms(1) by (auto simp: fresh_def split: option.splits)
  show ?thesis
    unfolding getAdminAccessToken_def miss
    by (simp add: Let_def split: sum.splits option.splits)
qed

text \<open>
  C4. A cached token with more than 60,000 ms left at the time of the call is returned
  and nothing is sent; otherwise one request goes to the token endpoint, and when it
  succeeds the cache holds the new token with the expiry \<open>now + ttl\<close>, \<open>ttl\<close> being
  \<open>expires_in\<close> seconds in milliseconds when that is a positive number and twenty
  minutes otherwise, and the new token is returned.
\<close>

theorem getAdminAccessToken_cache_or_exchange:
  "(fresh st now \<longrightarrow>
      (\<exists>c. cachedToken st = Some c \<and> 60000 < expiresAtMs c - now
           \<and> getAdminAccessToken rt ep now st = (Inr (token c), st)))
   \<and> (\<not> fresh st now \<longrightarrow>
        exchanges (snd (getAdminAccessToken rt ep now st)) = Suc (exchanges st))
   \<and> (\<not> fresh st now \<and> ep (exchanges st) = Inr resp \<and> resp_ok resp
        \<and> optChain (Some (parseOrNull rt (resp_text resp))) ''access_token'' = Some t
        \<and> truthy (Some t) \<longrightarrow>
        getAdminAccessToken rt ep now st =
          (Inr t,
           \<lparr>cachedToken =
              Some \<lparr>token = t,
                    expiresAtMs = now + specTtlMs
                      (optChain (Some (parseOrNull rt (resp_text resp))) ''expires_in'')\<rparr>,
            exchanges = Suc (exchanges st)\<rparr>))"
proof (intro conjI impI)
  assume "fresh st now"
  then obtain c where c: "cachedToken st = Some c" "60000 < expiresAtMs c - now"
    by (auto simp: fresh_def split: option.splits)
  with getAdminAccessToken_hit [OF c]
  show "\<exists>c. cachedToken st = Some c \<and> 60000 < expiresAtMs c - now
           \<and> getAdminAccessToken rt ep now st = (Inr (token c), st)"
    by blast
next
  assume "\<not> fresh st now"
  then show "exchanges (snd (getAdminAccessToken rt ep now st)) = Suc (exchanges st)"
    by (rule getAdminAccessToken_miss_counts)
next
  assume "\<not> fresh st now \<and> ep (exchanges st) = Inr resp \<and> resp_ok resp
        \<and> optChain (Some (parseOrNull rt (resp_text resp))) ''access_token'' = Some t
        \<and> truthy (Some t)"
  then show "getAdminAccessToken rt ep now st =
          (Inr t,
           \<lparr>cachedToken =
              Some \<lparr>token = t,
                    expiresAtMs = now + specTtlMs
                      (optChain (Some (parseOrNull rt (resp_text resp))) ''expires_in'')\<rparr>,
            exchanges = Suc (exchanges st)\<rparr>)"
    by (intro getAdminAccessToken_success) simp_all
qed

lemmas token_simps =
  fresh_def specTtlMs_def parseOrNull_def sampleParse_def sampleRuntime_def exchangeOk_def

theorem getAdminAccessToken_cache_or_exchange_witness:
  \<open>fresh \<lparr>cachedToken = Some \<lparr>token = JStr ''t0'', expiresAtMs = 200000\<rparr>, exchanges = 0\<rparr> 100000
   \<and> getAdminAccessToken sampleRuntime
        (\<lambda>n. Inr \<lparr>resp_ok = True, resp_status = 200, resp_statusText = ''OK'',
                   resp_text = ''{"access_token":"t2","expires_in":86399}''\<rparr>)
        100000 \<lparr>cachedToken = Some \<lparr>token = JStr ''t0'', expiresAtMs = 200000\<rparr>, exchanges = 0\<rparr>
       = (Inr (JStr ''t0''),
          \<lparr>cachedToken = Some \<lparr>token = JStr ''t0'', expiresAtMs = 200000\<rparr>, exchanges = 0\<rparr>)
   \<and> \<not> fresh \<lparr>cachedToken = Some \<lparr>token = JStr ''t0'', expiresAtMs = 160000\<rparr>, exchanges = 0\<rparr> 100000
   \<and> getAdminAccessToken sampleRuntime
        (\<lambda>n. Inr \<lparr>resp_ok = True, resp_status = 200, resp_statusText = ''OK'',
                   resp_text = ''{"access_token":"t2","expires_in":86399}''\<rparr>)
        100000 \<lparr>cachedToken = Some \<lparr>token = JStr ''t0'', expiresAtMs = 160000\<rparr>, exchanges = 0\<rparr>
       = (Inr (JStr ''t2''),
          \<lparr>cachedToken = Some \<lparr>token = JStr ''t2'', expiresAtMs = 86499000\<rparr>, exchanges = 1\<rparr>)
   \<and> \<not> fresh \<lparr>cachedToken = None, exchanges = 4\<rparr> 100000
   \<and> getAdminAccessToken sampleRuntime
        (\<lambda>n. Inr \<lparr>resp_ok = True, resp_status = 200, resp_statusText = ''OK'',
                   resp_text = ''{"access_token":"t3"}''\<rparr>)
        100000 \<lparr>cachedToken = None, exchanges = 4\<rparr>
       = (Inr (JStr ''t3''),
          \<lparr>cachedToken = Some \<lparr>token = JStr ''t3'', expiresAtMs = 1300000\<rparr>, exchanges = 5\<rparr>)\<close>
proof -
  let ?ep2 = \<open>\<lambda>n::nat. Inr \<lparr>resp_ok = True, resp_status = 200, resp_statusText = ''OK'',
                   resp_text = ''{"access_token":"t2","expires_in":86399}''\<rparr> :: error + httpResponse\<close>
  let ?r2 = \<open>\<lparr>resp_ok = True, resp_status = 200, resp_statusText = ''OK'',
                   resp_text = ''{"access_token":"t2","expires_in":86399}''\<rparr>\<close>
  let ?ep3 = \<open>\<lambda>n::nat. Inr \<lparr>resp_ok = True, resp_status = 200, resp_statusText = ''OK'',
                   resp_text = ''{"access_token":"t3"}''\<rparr> :: error + httpResponse\<close>
  let ?r3 = \<open>\<lparr>resp_ok = True, resp_status = 200, resp_statusText = ''OK'',
                   resp_text = ''{"access_token":"t3"}''\<rparr>\<close>
  let ?hit = "\<lparr>cachedToken = Some \<lparr>token = JStr ''t0'', expiresAtMs = 200000\<rparr>, exchanges = 0\<rparr>"
  let ?stale = "\<lparr>cachedToken = Some \<lparr>token = JStr ''t0'', expiresAtMs = 160000\<rparr>, exchanges = 0\<rparr>"
  let ?empty = "\<lparr>cachedToken = None, exchanges = 4\<rparr>"
  have f1: "fresh ?hit 100000" by (simp add: fresh_def)
  have f2: "\<not> fresh ?stale 100000" by (simp add: fresh_def)
  have f3: "\<not> fresh ?empty 100000" by (simp add: fresh_def)
  from getAdminAccessToken_cache_or_exchange
         [where st = ?hit and now = 100000 and rt = sampleRuntime and ep = ?ep2] f1
  have a: "getAdminAccessToken sampleRuntime ?ep2 100000 ?hit = (Inr (JStr ''t0''), ?hit)"
    by auto
  have p2: "optChain (Some (parseOrNull sampleRuntime (resp_text ?r2))) ''access_token''
              = Some (JStr ''t2'')"
    by (simp add: token_simps)
  have e2: "specTtlMs (optChain (Some (parseOrNull sampleRuntime (resp_text ?r2))) ''expires_in'')
              = 86399000"
    by (simp add: token_simps)
  from getAdminAccessToken_cache_or_exchange
         [where st = ?stale and now = 100000 and rt = sampleRuntime and ep = ?ep2
            and resp = ?r2 and t = "JStr ''t2''"] f2 p2
  have b: "getAdminAccessToken sampleRuntime ?ep2 100000 ?stale
             = (Inr (JStr ''t2''),
                \<lparr>cachedToken = Some \<lparr>token = JStr ''t2'', expiresAtMs = 86499000\<rparr>,
                 exchanges = 1\<rparr>)"
    unfolding e2 by simp
  have p3: "optChain (Some (parseOrNull sampleRuntime (resp_text ?r3))) ''access_token''
              = Some (JStr ''t3'')"
    by (simp add: token_simps)
  have e3: "specTtlMs (optChain (Some (parseOrNull sampleRuntime (resp_text ?r3))) ''expires_in'')
              = 1200000"
    by (simp add: token_simps)
  from getAdminAccessToken_cache_or_exchange
         [where st = ?empty and now = 100000 and rt = sampleRuntime and ep = ?ep3
            and resp = ?r3 and t = "JStr ''t3''"] f3 p3
  have c: "getAdminAccessToken sampleRuntime ?ep3 100000 ?empty
             = (Inr (JStr ''t3''),
                \<lparr>cachedToken = Some \<lparr>token = JStr ''t3'', expiresAtMs = 1300000\<rparr>,
                 exchanges = 5\<rparr>)"
    unfolding e3 by simp
  from f1 a f2 b f3 c show ?thesis by blast
qed

text \<open>
  C10. When the exchange fails (the call is rejected, the status is not a success, or
  the body carries no \<open>access_token\<close>) \<open>getAdminAccessToken\<close> throws and the cache is
  what it was before the call.
\<close>

theorem getAdminAccessToken_failure_keeps_cache:
  assumes "\<not> fresh st now"
    and "\<not> exchangeOk rt (ep (exchanges st))"
  shows "(\<exists>e. fst (getAdminAccessToken rt ep now st) = Inl e)
         \<and> cachedToken (snd (getAdminAccessToken rt ep now st)) = cachedToken st"
  using getAdminAccessToken_failure [where rt = rt and ep = ep and st = st and now = now, OF assms]
  by auto

theorem getAdminAccessToken_failure_keeps_cache_witness:
  \<open>\<not> fresh \<lparr>cachedToken = Some \<lparr>token = JStr ''t0'', expiresAtMs = 160000\<rparr>, exchanges = 0\<rparr> 100000
   \<and> \<not> exchangeOk sampleRuntime
         (Inr \<lparr>resp_ok = False, resp_status = 401, resp_statusText = ''Unauthorized'',
                resp_text = ''{"error":"invalid_client"}''\<rparr>)
   \<and> \<not> exchangeOk sampleRuntime
         (Inr \<lparr>resp_ok = True, resp_status = 200, resp_statusText = ''OK'',
                resp_text = ''{"error":"invalid_client"}''\<rparr>)
   \<and> fst (getAdminAccessToken sampleRuntime
        (\<lambda>n. Inr \<lparr>resp_ok = False, resp_status = 401, resp_statusText = ''Unauthorized'',
                   resp_text = ''{"error":"invalid_client"}''\<rparr>)
        100000 \<lparr>cachedToken = Some \<lparr>token = JStr ''t0'', expiresAtMs = 160000\<rparr>, exchanges = 0\<rparr>)
       = Inl (Error (JObj [(''where'', JStr ''token_exchange''), (''status'', JNum 401),
                           (''statusText'', JStr ''Unauthorized''),
                           (''body'', JObj [(''error'', JStr ''invalid_client'')])]))
   \<and> cachedToken (snd (getAdminAccessToken sampleRuntime
        (\<lambda>n. Inr \<lparr>resp_ok = False, resp_status = 401, resp_statusText = ''Unauthorized'',
                   resp_text = ''{"error":"invalid_client"}''\<rparr>)
        100000 \<lparr>cachedToken = Some \<lparr>token = JStr ''t0'', expiresAtMs = 160000\<rparr>, exchanges = 0\<rparr>))
       = Some \<lparr>token = JStr ''t0'', expiresAtMs = 160000\<rparr>
   \<and> cachedToken (snd (getAdminAccessToken sampleRuntime
        (\<lambda>n. Inr \<lparr>resp_ok = True, resp_status = 200, resp_statusText = ''OK'',
                   resp_text = ''{"error":"invalid_client"}''\<rparr>)
        100000 \<lparr>cachedToken = Some \<lparr>token = JStr ''t0'', expiresAtMs = 160000\<rparr>, exchanges = 0\<rparr>))
       = Some \<lparr>token = JStr ''t0'', expiresAtMs = 160000\<rparr>\<close>
proof -
  let ?bad = \<open>\<lparr>resp_ok = False, resp_status = 401, resp_statusText = ''Unauthorized'',
                resp_text = ''{"error":"invalid_client"}''\<rparr>\<close>
  let ?odd = \<open>\<lparr>resp_ok = True, resp_status = 200, resp_statusText = ''OK'',
                resp_text = ''{"error":"invalid_client"}''\<rparr>\<close>
  let ?stale = "\<lparr>cachedToken = Some \<lparr>token = JStr ''t0'', expiresAtMs = 160000\<rparr>, exchanges = 0\<rparr>"
  have f: "\<not> fresh ?stale 100000" by (simp add: fresh_def)
  have x1: "\<not> exchangeOk sampleRuntime (Inr ?bad)" by (simp add: token_simps)
  have x2: "\<not> exchangeOk sampleRuntime (Inr ?odd)" by (simp add: token_simps)
  have x1': "\<not> exchangeOk sampleRuntime ((\<lambda>n. Inr ?bad) (exchanges ?stale))" using x1 by simp
  have x2': "\<not> exchangeOk sampleRuntime ((\<lambda>n. Inr ?odd) (exchanges ?stale))" using x2 by simp
  have k1: "cachedToken (snd (getAdminAccessToken sampleRuntime (\<lambda>n. Inr ?bad) 100000 ?stale))
              = Some \<lparr>token = JStr ''t0'', expiresAtMs = 160000\<rparr>"
    using getAdminAccessToken_failure_keeps_cache
            [where rt = sampleRuntime and ep = "\<lambda>n. Inr ?bad" and st = ?stale and now = 100000,
             OF f x1']
    by simp
  have k2: "cachedToken (snd (getAdminAccessToken sampleRuntime (\<lambda>n. Inr ?odd) 100000 ?stale))
              = Some \<lparr>token = JStr ''t0'', expiresAtMs = 160000\<rparr>"
    using getAdminAccessToken_failure_keeps_cache
            [where rt = sampleRuntime and ep = "\<lambda>n. Inr ?odd" and st = ?stale and now = 100000,
             OF f x2']
    by simp
  have e1: "fst (getAdminAccessToken sampleRuntime (\<lambda>n. Inr ?bad) 100000 ?stale)
       = Inl (Error (JObj [(''where'', JStr ''token_exchange''), (''status'', JNum 401),
                           (''statusText'', JStr ''Unauthorized''),
                           (''body'', JObj [(''error'', JStr ''invalid_client'')])]))"
    by (simp add: getAdminAccessToken_def token_simps)
  from f x1 x2 e1 k1 k2 show ?thesis by blast
qed

text \<open>
  C9. The claim says two calls made within 60 seconds of the expiry of the cached token
  trigger exactly one exchange. The second call is answered from the cache only when the
  first exchange succeeded and brought a token that still has more than 60 seconds left.
  With the cached token expiring at 100,000 ms, a call at 50,000 ms receives a token with
  \<open>expires_in\<close> 30, stored with the expiry 80,000 ms; the call at 50,001 ms finds less than
  60 seconds left on it and exchanges again. When the first exchange fails with status
  500 the cache is unchanged and the second call exchanges again as well.
\<close>

theorem twoCalls_exactly_one_exchange_counterexample:
  \<open>\<not> fresh \<lparr>cachedToken = Some \<lparr>token = JStr ''t0'', expiresAtMs = 100000\<rparr>, exchanges = 0\<rparr> 50000
   \<and> \<not> fresh \<lparr>cachedToken = Some \<lparr>token = JStr ''t0'', expiresAtMs = 100000\<rparr>, exchanges = 0\<rparr> 50001
   \<and> twoCalls sampleRuntime
        (\<lambda>n. Inr \<lparr>resp_ok = True, resp_status = 200, resp_statusText = ''OK'',
                   resp_text = ''{"access_token":"t1","expires_in":30}''\<rparr>)
        50000 50001
        \<lparr>cachedToken = Some \<lparr>token = JStr ''t0'', expiresAtMs = 100000\<rparr>, exchanges = 0\<rparr>
       = (Inr (JStr ''t1''), Inr (JStr ''t1''),
          \<lparr>cachedToken = Some \<lparr>token = JStr ''t1'', expiresAtMs = 80001\<rparr>, exchanges = 2\<rparr>)
   \<and> exchanges (snd (snd (twoCalls sampleRuntime
        (\<lambda>n. Inr \<lparr>resp_ok = False, resp_status = 500,
                   resp_statusText = ''Internal Server Error'', resp_text = ''''\<rparr>)
        50000 50001
        \<lparr>cachedToken = Some \<lparr>token = JStr ''t0'', expiresAtMs = 100000\<rparr>, exchanges = 0\<rparr>)))
       = 2\<close>
  by (simp add: twoCalls_def getAdminAccessToken_def token_simps)

text \<open>
  C9, as the program has it. Two calls made while the cached token has more than 60
  seconds left return that same token and send nothing. Two calls of which the first
  finds no such token send exactly one request, provided that exchange succeeds and the
  token it brings has more than 60 seconds left at the second call; both calls then
  return the new token.
\<close>

theorem twoCalls_exchanges:
  "(fresh st nowA \<and> fresh st nowB \<longrightarrow>
      (\<exists>c. cachedToken st = Some c
           \<and> twoCalls rt ep nowA nowB st = (Inr (token c), Inr (token c), st)))
   \<and> (\<not> fresh st nowA \<and> ep (exchanges st) = Inr resp \<and> resp_ok resp
        \<and> optChain (Some (parseOrNull rt (resp_text resp))) ''access_token'' = Some t
        \<and> truthy (Some t)
        \<and> 60000 < nowA + specTtlMs
                     (optChain (Some (parseOrNull rt (resp_text resp))) ''expires_in'') - nowB
        \<longrightarrow>
        (\<exists>st'. twoCalls rt ep nowA nowB st = (Inr t, Inr t, st')
              \<and> exchanges st' = Suc (exchanges st)))"
proof (intro conjI impI)
  assume "fresh st nowA \<and> fresh st nowB"
  then obtain c where c: "cachedToken st = Some c"
      "60000 < expiresAtMs c - nowA" "60000 < expiresAtMs c - nowB"
    by (auto simp: fresh_def split: option.splits)
  have "twoCalls rt ep nowA nowB st = (Inr (token c), Inr (token c), st)"
    by (simp add: twoCalls_def getAdminAccessToken_hit [OF c(1,2)]
        getAdminAccessToken_hit [OF c(1,3)])
  with c(1) show "\<exists>c. cachedToken st = Some c
           \<and> twoCalls rt ep nowA nowB st = (Inr (token c), Inr (token c), st)"
    by blast
next
  let ?ttl = "specTtlMs (optChain (Some (parseOrNull rt (resp_text resp))) ''expires_in'')"
  let ?st1 = "\<lparr>cachedToken = Some \<lparr>token = t, expiresAtMs = nowA + ?ttl\<rparr>,
               exchanges = Suc (exchanges st)\<rparr>"
  assume a: "\<not> fresh st nowA \<and> ep (exchanges st) = Inr resp \<and> resp_ok resp
        \<and> optChain (Some (parseOrNull rt (resp_text resp))) ''access_token'' = Some t
        \<and> truthy (Some t)
        \<and> 60000 < nowA + ?ttl - nowB"
  then have first: "getAdminAccessToken rt ep nowA st = (Inr t, ?st1)"
    by (intro getAdminAccessToken_success) simp_all
  have "cachedToken ?st1 = Some \<lparr>token = t, expiresAtMs = nowA + ?ttl\<rparr>" by simp
  moreover have "60000 < expiresAtMs \<lparr>token = t, expiresAtMs = nowA + ?ttl\<rparr> - nowB"
    using a by simp
  ultimately have second: "getAdminAccessToken rt ep nowB ?st1 = (Inr t, ?st1)"
    using getAdminAccessToken_hit [where st = ?st1 and now = nowB and rt = rt and ep = ep]
    by fastforce
  have "twoCalls rt ep nowA nowB st = (Inr t, Inr t, ?st1)"
    by (simp add: twoCalls_def first second)
  then show "\<exists>st'. twoCalls rt ep nowA nowB st = (Inr t, Inr t, st')
              \<and> exchanges st' = Suc (exchanges st)"
    by simp
qed

theorem twoCalls_exchanges_witness:
  \<open>fresh \<lparr>cachedToken = Some \<lparr>token = JStr ''t0'', expiresAtMs = 200000\<rparr>, exchanges = 0\<rparr> 100000
   \<and> fresh \<lparr>cachedToken = Some \<lparr>token = JStr ''t0'', expiresAtMs = 200000\<rparr>, exchanges = 0\<rparr> 120000
   \<and> twoCalls sampleRuntime
        (\<lambda>n. Inr \<lparr>resp_ok = True, resp_status = 200, resp_statusText = ''OK'',
                   resp_text = ''{"access_token":"t2","expires_in":86399}''\<rparr>)
        100000 120000
        \<lparr>cachedToken = Some \<lparr>token = JStr ''t0'', expiresAtMs = 200000\<rparr>, exchanges = 0\<rparr>
       = (Inr (JStr ''t0''), Inr (JStr ''t0''),
          \<lparr>cachedToken = Some \<lparr>token = JStr ''t0'', expiresAtMs = 200000\<rparr>, exchanges = 0\<rparr>)
   \<and> \<not> fresh \<lparr>cachedToken = Some \<lparr>token = JStr ''t0'', expiresAtMs = 200000\<rparr>, exchanges = 0\<rparr> 150000
   \<and> (\<exists>st'. twoCalls sampleRuntime
        (\<lambda>n. Inr \<lparr>resp_ok = True, resp_status = 200, resp_statusText = ''OK'',
                   resp_text = ''{"access_token":"t2","expires_in":86399}''\<rparr>)
        150000 190000
        \<lparr>cachedToken = Some \<lparr>token = JStr ''t0'', expiresAtMs = 200000\<rparr>, exchanges = 0\<rparr>
       = (Inr (JStr ''t2''), Inr (JStr ''t2''), st') \<and> exchanges st' = 1)\<close>
proof -
  let ?ep2 = \<open>\<lambda>n::nat. Inr \<lparr>resp_ok = True, resp_status = 200, resp_statusText = ''OK'',
                   resp_text = ''{"access_token":"t2","expires_in":86399}''\<rparr> :: error + httpResponse\<close>
  let ?r2 = \<open>\<lparr>resp_ok = True, resp_status = 200, resp_statusText = ''OK'',
                   resp_text = ''{"access_token":"t2","expires_in":86399}''\<rparr>\<close>
  let ?st = "\<lparr>cachedToken = Some \<lparr>token = JStr ''t0'', expiresAtMs = 200000\<rparr>, exchanges = 0\<rparr>"
  have f1: "fresh ?st 100000" by (simp add: fresh_def)
  have f2: "fresh ?st 120000" by (simp add: fresh_def)
  have f3: "\<not> fresh ?st 150000" by (simp add: fresh_def)
  from twoCalls_exchanges
         [where st = ?st and nowA = 100000 and nowB = 120000 and rt = sampleRuntime and ep = ?ep2]
       f1 f2
  have a: "twoCalls sampleRuntime ?ep2 100000 120000 ?st
             = (Inr (JStr ''t0''), Inr (JStr ''t0''), ?st)"
    by auto
  have p2: "optChain (Some (parseOrNull sampleRuntime (resp_text ?r2))) ''access_token''
              = Some (JStr ''t2'')"
    by (simp add: token_simps)
  have e2: "specTtlMs (optChain (Some (parseOrNull sampleRuntime (resp_text ?r2))) ''expires_in'')
              = 86399000"
    by (simp add: token_simps)
  from twoCalls_exchanges
         [where st = ?st and nowA = 150000 and nowB = 190000 and rt = sampleRuntime and ep = ?ep2
            and resp = ?r2 and t = "JStr ''t2''"] f3 p2
  have b: "\<exists>st'. twoCalls sampleRuntime ?ep2 150000 190000 ?st
             = (Inr (JStr ''t2''), Inr (JStr ''t2''), st') \<and> exchanges st' = 1"
    unfolding e2 by simp
  from f1 f2 a f3 b show ?thesis by blast
qed

subsection \<open>The offline session\<close>

lemma getOfflineAccessTokenForShop_found:
  assumes "findSessionsByShop shop = Inr sessions"
    and "find offlineWithToken sessions = Some s"
  shows "getOfflineAccessTokenForShop findSessionsByShop shop = Inr (accessToken s)"
proof -
  from assms(2) have "offlineWithToken s" by (auto simp: find_Some_iff)
  then have "truthyStr (accessToken s)" by (simp add: offlineWithToken_def)
  with assms show ?thesis by (simp add: getOfflineAccessTokenForShop_def)
qed

lemma getOfflineAccessTokenForShop_absent:
  assumes "findSessionsByShop shop = Inr sessions"
    and "\<not> list_ex offlineWithToken sessions"
  shows "getOfflineAccessTokenForShop findSessionsByShop shop = Inr None"
proof -
  from assms(2) have "find offlineWithToken sessions = None"
    by (simp add: find_None_iff list_ex_iff)
  with assms(1) show ?thesis by (simp add: getOfflineAccessTokenForShop_def)
qed

lemma find_first:
  "\<not> list_ex P pre \<Longrightarrow> P s \<Longrightarrow> find P (pre @ s # post) = Some s"
  by (induction pre) auto

text \<open>
  C5. Among the sessions the storage returns for the shop, the first one that is offline
  and has a non-empty access token gives the token. When there is none the resolver
  returns \<open>null\<close> and does not throw, and the handler answers 401 with a hint (or, for a
  request it refuses before the lookup, 401 or 400), never 500.
\<close>

theorem getOfflineAccessTokenForShop_first_offline:
  assumes "findSessionsByShop shop = Inr sessions"
  shows "(sessions = pre @ s # post \<and> \<not> list_ex offlineWithToken pre
            \<and> isOnline s = False \<and> accessToken s = Some tok \<and> tok \<noteq> [] \<longrightarrow>
            getOfflineAccessTokenForShop findSessionsByShop shop = Inr (Some tok))
       \<and> (\<not> list_ex offlineWithToken sessions \<longrightarrow>
            getOfflineAccessTokenForShop findSessionsByShop shop = Inr None)
       \<and> (\<not> list_ex offlineWithToken sessions
            \<and> shop = trim rt (orEmpty (getParam ps ''shop'')) \<longrightarrow>
            (\<exists>r. loader_offline rt env findSessionsByShop fetch ps = Inr r
                 \<and> (status r = 401 \<or> status r = 400)
                 \<and> (verifyProxySignature_checked rt (PROXY_SECRET env) ps \<and> shop \<noteq> []
                      \<and> isDigits (orEmpty (getParam ps ''variant'')) \<longrightarrow>
                      status r = 401
                      \<and> getProp (body r) ''error''
                          = Some (JStr ''No offline session stored for shop'')
                      \<and> getProp (body r) ''hint''
                          = Some (JStr ''Open the embedded app in Shopify admin (or reinstall) to complete offline auth and store a session in Prisma.''))))"
proof (intro conjI impI)
  assume q: "sessions = pre @ s # post \<and> \<not> list_ex offlineWithToken pre
            \<and> isOnline s = False \<and> accessToken s = Some tok \<and> tok \<noteq> []"
  then have "offlineWithToken s" by (simp add: offlineWithToken_def)
  with q have "find offlineWithToken sessions = Some s" by (simp add: find_first)
  from getOfflineAccessTokenForShop_found
         [where findSessionsByShop = findSessionsByShop and shop = shop, OF assms this] q
  show "getOfflineAccessTokenForShop findSessionsByShop shop = Inr (Some tok)" by simp
next
  assume "\<not> list_ex offlineWithToken sessions"
  with assms show "getOfflineAccessTokenForShop findSessionsByShop shop = Inr None"
    using getOfflineAccessTokenForShop_absent
            [where findSessionsByShop = findSessionsByShop and shop = shop and sessions = sessions]
    by blast
next
  assume a: "\<not> list_ex offlineWithToken sessions
            \<and> shop = trim rt (orEmpty (getParam ps ''shop''))"
  then have absent: "getOfflineAccessTokenForShop findSessionsByShop
                       (trim rt (orEmpty (getParam ps ''shop''))) = Inr None"
    using getOfflineAccessTokenForShop_absent
            [where findSessionsByShop = findSessionsByShop and shop = shop and sessions = sessions]
          assms
    by simp
  show "\<exists>r. loader_offline rt env findSessionsByShop fetch ps = Inr r
                 \<and> (status r = 401 \<or> status r = 400)
                 \<and> (verifyProxySignature_checked rt (PROXY_SECRET env) ps \<and> shop \<noteq> []
                      \<and> isDigits (orEmpty (getParam ps ''variant'')) \<longrightarrow>
                      status r = 401
                      \<and> getProp (body r) ''error''
                          = Some (JStr ''No offline session stored for shop'')
                      \<and> getProp (body r) ''hint''
                          = Some (JStr ''Open the embedded app in Shopify admin (or reinstall) to complete offline auth and store a session in Prisma.''))"
    using a by (simp add: loader_offline_def Let_def absent jsonResponse_def)
qed

theorem getOfflineAccessTokenForShop_first_offline_witness:
  "getOfflineAccessTokenForShop
     (\<lambda>sh. Inr [\<lparr>session_id = ''a'', session_shop = sh, isOnline = True, accessToken = Some ''shpua_1''\<rparr>,
                 \<lparr>session_id = ''b'', session_shop = sh, isOnline = False, accessToken = None\<rparr>,
                 \<lparr>session_id = ''c'', session_shop = sh, isOnline = False, accessToken = Some ''shpat_1''\<rparr>,
                 \<lparr>session_id = ''d'', session_shop = sh, isOnline = False, accessToken = Some ''shpat_2''\<rparr>])
     ''s.myshopify.com'' = Inr (Some ''shpat_1'')
   \<and> getOfflineAccessTokenForShop
     (\<lambda>sh. Inr [\<lparr>session_id = ''a'', session_shop = sh, isOnline = True, accessToken = Some ''shpua_1''\<rparr>,
                 \<lparr>session_id = ''b'', session_shop = sh, isOnline = False, accessToken = None\<rparr>])
     ''s.myshopify.com'' = Inr None
   \<and> verifyProxySignature_checked sampleRuntime (PROXY_SECRET sampleEnv)
        [(''shop'', '' s.myshopify.com''), (''variant'', ''123''),
         (''signature'', hmacSha256Hex sampleRuntime ''shhh'' ''shop= s.myshopify.comvariant=123'')]
   \<and> loader_offline sampleRuntime sampleEnv
        (\<lambda>sh. Inr [\<lparr>session_id = ''a'', session_shop = sh, isOnline = True, accessToken = Some ''shpua_1''\<rparr>,
                    \<lparr>session_id = ''b'', session_shop = sh, isOnline = False, accessToken = None\<rparr>])
        (\<lambda>req. Inl (Rejected ''unreachable''))
        [(''shop'', '' s.myshopify.com''), (''variant'', ''123''),
         (''signature'', hmacSha256Hex sampleRuntime ''shhh'' ''shop= s.myshopify.comvariant=123'')]
       = Inr (jsonResponse 401
                [(''error'', JStr ''No offline session stored for shop''),
                 (''shop'', JStr ''s.myshopify.com''),
                 (''hint'', JStr ''Open the embedded app in Shopify admin (or reinstall) to complete offline auth and store a session in Prisma.'')])"
proof -
  let ?on = "\<lambda>sh. \<lparr>session_id = ''a'', session_shop = sh, isOnline = True, accessToken = Some ''shpua_1''\<rparr>"
  let ?no = "\<lambda>sh. \<lparr>session_id = ''b'', session_shop = sh, isOnline = False, accessToken = None\<rparr>"
  let ?c = "\<lambda>sh. \<lparr>session_id = ''c'', session_shop = sh, isOnline = False, accessToken = Some ''shpat_1''\<rparr>"
  let ?d = "\<lambda>sh. \<lparr>session_id = ''d'', session_shop = sh, isOnline = False, accessToken = Some ''shpat_2''\<rparr>"
  let ?f1 = "\<lambda>sh::string. Inr [?on sh, ?no sh, ?c sh, ?d sh] :: error + session list"
  let ?f2 = "\<lambda>sh::string. Inr [?on sh, ?no sh] :: error + session list"
  let ?shop = "''s.myshopify.com''"
  let ?ps = "[(''shop'', '' s.myshopify.com''), (''variant'', ''123''),
         (''signature'', hmacSha256Hex sampleRuntime ''shhh'' ''shop= s.myshopify.comvariant=123'')]"
  let ?fetch = "\<lambda>req::adminRequest. Inl (Rejected ''unreachable'') :: error + httpResponse"
  have s1: "?f1 ?shop = Inr [?on ?shop, ?no ?shop, ?c ?shop, ?d ?shop]" by simp
  have s2: "?f2 ?shop = Inr [?on ?shop, ?no ?shop]" by simp
  note t1 = getOfflineAccessTokenForShop_first_offline
              [where findSessionsByShop = ?f1 and shop = ?shop
                 and sessions = "[?on ?shop, ?no ?shop, ?c ?shop, ?d ?shop]"
                 and pre = "[?on ?shop, ?no ?shop]" and s = "?c ?shop" and post = "[?d ?shop]"
                 and tok = "''shpat_1''", OF s1, THEN conjunct1]
  have a: "getOfflineAccessTokenForShop ?f1 ?shop = Inr (Some ''shpat_1'')"
    using t1 by (simp add: offlineWithToken_def)
  note t2 = getOfflineAccessTokenForShop_first_offline
              [where findSessionsByShop = ?f2 and shop = ?shop
                 and sessions = "[?on ?shop, ?no ?shop]"
                 and rt = sampleRuntime and env = sampleEnv and ps = ?ps and fetch = ?fetch,
               OF s2]
  have none: "\<not> list_ex offlineWithToken [?on ?shop, ?no ?shop]"
    by (simp add: offlineWithToken_def)
  have shop: "?shop = trim sampleRuntime (orEmpty (getParam ?ps ''shop''))"
    by (simp add: getParam_def sampleRuntime_def asciiTrim_def asciiSpace_def)
  have v: "verifyProxySignature_checked sampleRuntime (PROXY_SECRET sampleEnv) ?ps"
    by (simp add: verifyProxySignature_checked_def PROXY_SECRET_def sampleEnv_def verify_iff
        message_simps sample_simps)
  have d: "isDigits (orEmpty (getParam ?ps ''variant''))"
    by (simp add: isDigits_def getParam_def)
  from t2 none have b: "getOfflineAccessTokenForShop ?f2 ?shop = Inr None"
    by blast
  from t2 none shop v d obtain r where
    r: "loader_offline sampleRuntime sampleEnv ?f2 ?fetch ?ps = Inr r" "status r = 401"
    by blast
  have c: "loader_offline sampleRuntime sampleEnv ?f2 ?fetch ?ps
       = Inr (jsonResponse 401
                [(''error'', JStr ''No offline session stored for shop''),
                 (''shop'', JStr ''s.myshopify.com''),
                 (''hint'', JStr ''Open the embedded app in Shopify admin (or reinstall) to complete offline auth and store a session in Prisma.'')])"
    using v d b shop [symmetric] r
    by (simp add: loader_offline_def Let_def)
  from a b v c show ?thesis by blast
qed

subsection \<open>Country, location and stock\<close>

lemma locationIdFor_alt:
  "locationIdFor env c = (if c = ''US'' then US_LOCATION_ID env else UK_LOCATION_ID env)"
  by (simp add: locationIdFor_def)

text \<open>
  C6. The location is defined for every request and is one of the two configured
  identifiers: the one of the US when the country in upper case is \<open>US\<close>, the one of the
  UK for every other value, absent and unknown ones included. On a country that the
  runtime puts in upper case letter by letter as ASCII, this is \<open>US\<close> in any of its four
  spellings against everything else.
\<close>

theorem locationIdFor_country:
  "(locationIdFor env (countryOf rt ps) = UK_LOCATION_ID env
      \<or> locationIdFor env (countryOf rt ps) = US_LOCATION_ID env)
   \<and> locationIdFor env (countryOf rt ps)
       = (if toUpperCase rt (orEmpty (getParam ps ''country'')) = ''US''
          then US_LOCATION_ID env else UK_LOCATION_ID env)
   \<and> (toUpperCase rt (orEmpty (getParam ps ''country''))
         = asciiUpper (orEmpty (getParam ps ''country'')) \<longrightarrow>
        locationIdFor env (countryOf rt ps)
         = (if orEmpty (getParam ps ''country'') \<in> {''US'', ''Us'', ''uS'', ''us''}
            then US_LOCATION_ID env else UK_LOCATION_ID env))
   \<and> (toUpperCase rt [] = [] \<and> getParam ps ''country'' = None \<longrightarrow>
        locationIdFor env (countryOf rt ps) = UK_LOCATION_ID env)"
proof (intro conjI impI)
  show "locationIdFor env (countryOf rt ps) = UK_LOCATION_ID env
      \<or> locationIdFor env (countryOf rt ps) = US_LOCATION_ID env"
    by (simp add: locationIdFor_def)
  show "locationIdFor env (countryOf rt ps)
       = (if toUpperCase rt (orEmpty (getParam ps ''country'')) = ''US''
          then US_LOCATION_ID env else UK_LOCATION_ID env)"
    by (simp add: locationIdFor_alt countryOf_def)
next
  assume "toUpperCase rt (orEmpty (getParam ps ''country''))
         = asciiUpper (orEmpty (getParam ps ''country''))"
  then have "countryOf rt ps = asciiUpper (orEmpty (getParam ps ''country''))"
    by (simp add: countryOf_def)
  then show "locationIdFor env (countryOf rt ps)
         = (if orEmpty (getParam ps ''country'') \<in> {''US'', ''Us'', ''uS'', ''us''}
            then US_LOCATION_ID env else UK_LOCATION_ID env)"
    by (simp only: locationIdFor_alt asciiUpper_US)
next
  assume "toUpperCase rt [] = [] \<and> getParam ps ''country'' = None"
  then show "locationIdFor env (countryOf rt ps) = UK_LOCATION_ID env"
    by (simp add: locationIdFor_def countryOf_def)
qed

theorem locationIdFor_country_witness:
  "toUpperCase sampleRuntime (orEmpty (getParam [(''country'', ''us'')] ''country''))
     = asciiUpper (orEmpty (getParam [(''country'', ''us'')] ''country''))
   \<and> locationIdFor sampleEnv (countryOf sampleRuntime [(''country'', ''us'')]) = Some ''222''
   \<and> toUpperCase sampleRuntime (orEmpty (getParam [(''country'', ''Gb'')] ''country''))
     = asciiUpper (orEmpty (getParam [(''country'', ''Gb'')] ''country''))
   \<and> locationIdFor sampleEnv (countryOf sampleRuntime [(''country'', ''Gb'')]) = Some ''111''
   \<and> toUpperCase sampleRuntime (orEmpty (getParam [(''country'', ''FR'')] ''country''))
     = asciiUpper (orEmpty (getParam [(''country'', ''FR'')] ''country''))
   \<and> locationIdFor sampleEnv (countryOf sampleRuntime [(''country'', ''FR'')]) = Some ''111''
   \<and> toUpperCase sampleRuntime [] = []
   \<and> getParam [(''variant'', ''123'')] ''country'' = None
   \<and> locationIdFor sampleEnv (countryOf sampleRuntime [(''variant'', ''123'')]) = Some ''111''"
proof -
  have u: "toUpperCase sampleRuntime c = asciiUpper c" for c
    by (simp add: sampleRuntime_def)
  have e: "toUpperCase sampleRuntime [] = []"
    by (simp add: sampleRuntime_def asciiUpper_def)
  have n: "getParam [(''variant'', ''123'')] ''country'' = None"
    by (simp add: getParam_def)
  have uk: "UK_LOCATION_ID sampleEnv = Some ''111''"
    by (simp add: UK_LOCATION_ID_def sampleEnv_def)
  have us: "US_LOCATION_ID sampleEnv = Some ''222''"
    by (simp add: US_LOCATION_ID_def sampleEnv_def)
  have a: "locationIdFor sampleEnv (countryOf sampleRuntime [(''country'', ''us'')]) = Some ''222''"
    using locationIdFor_country
            [where rt = sampleRuntime and env = sampleEnv and ps = "[(''country'', ''us'')]",
             THEN conjunct2, THEN conjunct2, THEN conjunct1, THEN mp, OF u]
    by (simp add: getParam_def us)
  have b: "locationIdFor sampleEnv (countryOf sampleRuntime [(''country'', ''Gb'')]) = Some ''111''"
    using locationIdFor_country
            [where rt = sampleRuntime and env = sampleEnv and ps = "[(''country'', ''Gb'')]",
             THEN conjunct2, THEN conjunct2, THEN conjunct1, THEN mp, OF u]
    by (simp add: getParam_def uk)
  have c: "locationIdFor sampleEnv (countryOf sampleRuntime [(''country'', ''FR'')]) = Some ''111''"
    using locationIdFor_country
            [where rt = sampleRuntime and env = sampleEnv and ps = "[(''country'', ''FR'')]",
             THEN conjunct2, THEN conjunct2, THEN conjunct1, THEN mp, OF u]
    by (simp add: getParam_def uk)
  have d: "locationIdFor sampleEnv (countryOf sampleRuntime [(''variant'', ''123'')]) = Some ''111''"
    using locationIdFor_country
            [where rt = sampleRuntime and env = sampleEnv and ps = "[(''variant'', ''123'')]",
             THEN conjunct2, THEN conjunct2, THEN conjunct2, THEN mp, OF conjI [OF e n]]
    by (simp add: uk)
  from u e n a b c d show ?thesis by blast
qed

lemma stockOfResponse_success:
  assumes "resp_ok resp"
    and "\<not> truthy (optChain (Some (parseOrNull rt (resp_text resp))) ''errors'')"
  shows "stockOfResponse rt resp
           = Inr (case availableOf (parseOrNull rt (resp_text resp)) of
                    Some (JNum n) \<Rightarrow> n | _ \<Rightarrow> 0)"
  using assms by (simp add: stockOfResponse_def Let_def)

text \<open>
  C7. When the Admin API answers with a success status and no \<open>errors\<close>, and the
  \<open>available\<close> field is missing, \<open>null\<close> or anything but a number, the lookup returns 0
  and does not fail, and the handler answers 200 with \<open>qty\<close> 0 and \<open>available\<close> false.
\<close>

theorem stock_defaults_to_zero:
  assumes "resp_ok resp"
    and "\<not> truthy (optChain (Some (parseOrNull rt (resp_text resp))) ''errors'')"
    and "\<forall>n. availableOf (parseOrNull rt (resp_text resp)) \<noteq> Some (JNum n)"
  shows "stockOfResponse rt resp = Inr 0
       \<and> ((\<forall>req. fetch req = Inr resp) \<longrightarrow>
            getStockAtLocation rt env fetch variantId locationId = Inr 0)
       \<and> ((\<forall>req. fetch req = Inr resp) \<and> truthyStr (SHOP env) \<and> truthyStr (ADMIN_TOKEN env)
            \<and> verifyProxySignature rt (PROXY_SECRET env) ps
            \<and> isDigits (orEmpty (getParam ps ''variant'')) \<longrightarrow>
            status (loader rt env fetch ps) = 200
            \<and> getProp (body (loader rt env fetch ps)) ''qty'' = Some (JNum 0)
            \<and> getProp (body (loader rt env fetch ps)) ''available'' = Some (JBool False))"
proof -
  have z: "(case availableOf (parseOrNull rt (resp_text resp)) of
              Some (JNum n) \<Rightarrow> n | _ \<Rightarrow> 0) = 0"
    using assms(3) by (auto split: option.splits json.splits)
  have s: "stockOfResponse rt resp = Inr 0"
    using stockOfResponse_success [OF assms(1,2)] z by simp
  have g: "getStockAtLocation rt env fetch v l = Inr 0" if "\<forall>req. fetch req = Inr resp" for v l
    using that s by (simp add: getStockAtLocation_def)
  show ?thesis
    using s g by (simp add: loader_def Let_def)
qed

theorem stock_defaults_to_zero_witness:
  \<open>resp_ok \<lparr>resp_ok = True, resp_status = 200, resp_statusText = ''OK'',
             resp_text = ''{"data":{"productVariant":{"inventoryItem":{"inventoryLevel":{"available":null}}}}}''\<rparr>
   \<and> \<not> truthy (optChain (Some (parseOrNull sampleRuntime
           ''{"data":{"productVariant":{"inventoryItem":{"inventoryLevel":{"available":null}}}}}''))
           ''errors'')
   \<and> availableOf (parseOrNull sampleRuntime
         ''{"data":{"productVariant":{"inventoryItem":{"inventoryLevel":{"available":null}}}}}'')
       = Some JNull
   \<and> truthyStr (SHOP sampleEnv) \<and> truthyStr (ADMIN_TOKEN sampleEnv)
   \<and> verifyProxySignature sampleRuntime (PROXY_SECRET sampleEnv)
        [(''variant'', ''123''), (''country'', ''fr''),
         (''signature'', hmacSha256Hex sampleRuntime ''shhh'' ''country=frvariant=123'')]
   \<and> isDigits (orEmpty (getParam
        [(''variant'', ''123''), (''country'', ''fr''),
         (''signature'', hmacSha256Hex sampleRuntime ''shhh'' ''country=frvariant=123'')]
        ''variant''))
   \<and> loader sampleRuntime sampleEnv
        (\<lambda>req. Inr \<lparr>resp_ok = True, resp_status = 200, resp_statusText = ''OK'',
             resp_text = ''{"data":{"productVariant":{"inventoryItem":{"inventoryLevel":{"available":null}}}}}''\<rparr>)
        [(''variant'', ''123''), (''country'', ''fr''),
         (''signature'', hmacSha256Hex sampleRuntime ''shhh'' ''country=frvariant=123'')]
       = \<lparr>status = 200,
          body = JObj [(''variantId'', JNum 123), (''country'', JStr ''FR''),
                       (''locationId'', JNum 111), (''qty'', JNum 0),
                       (''available'', JBool False)],
          cacheControl = Some ''public, max-age=15''\<rparr>\<close>
proof -
  let ?text = \<open>''{"data":{"productVariant":{"inventoryItem":{"inventoryLevel":{"available":null}}}}}''\<close>
  let ?resp = \<open>\<lparr>resp_ok = True, resp_status = 200, resp_statusText = ''OK'', resp_text = ?text\<rparr>\<close>
  let ?fetch = "\<lambda>req::adminRequest. Inr ?resp :: error + httpResponse"
  let ?ps = "[(''variant'', ''123''), (''country'', ''fr''),
         (''signature'', hmacSha256Hex sampleRuntime ''shhh'' ''country=frvariant=123'')]"
  have p: "parseOrNull sampleRuntime ?text
             = JObj [(''data'', JObj [(''productVariant'', JObj [(''inventoryItem'',
                 JObj [(''inventoryLevel'', JObj [(''available'', JNull)])])])])]"
    by (simp add: parseOrNull_def sampleRuntime_def sampleParse_def)
  have ok: "resp_ok ?resp" by simp
  have ne: "\<not> truthy (optChain (Some (parseOrNull sampleRuntime (resp_text ?resp))) ''errors'')"
    by (simp add: p)
  have av: "availableOf (parseOrNull sampleRuntime ?text) = Some JNull"
    by (simp add: p availableOf_def)
  have nn: "\<forall>n. availableOf (parseOrNull sampleRuntime (resp_text ?resp)) \<noteq> Some (JNum n)"
    using av by simp
  have sh: "truthyStr (SHOP sampleEnv)" by (simp add: SHOP_def sampleEnv_def)
  have tk: "truthyStr (ADMIN_TOKEN sampleEnv)" by (simp add: ADMIN_TOKEN_def sampleEnv_def)
  have v: "verifyProxySignature sampleRuntime (PROXY_SECRET sampleEnv) ?ps"
    by (simp add: PROXY_SECRET_def sampleEnv_def verify_iff message_simps sample_simps)
  have d: "isDigits (orEmpty (getParam ?ps ''variant''))"
    by (simp add: isDigits_def getParam_def)
  have f: "\<forall>req. ?fetch req = Inr ?resp" by simp
  note t = stock_defaults_to_zero
             [where rt = sampleRuntime and resp = ?resp and fetch = ?fetch and env = sampleEnv
                and ps = ?ps, OF ok ne nn]
  from t f have g: "getStockAtLocation sampleRuntime sampleEnv ?fetch v l = Inr 0" for v l
    by blast
  from t f sh tk v d have st: "status (loader sampleRuntime sampleEnv ?fetch ?ps) = 200"
    by blast
  have c: "countryOf sampleRuntime ?ps = ''FR''"
    by (simp add: countryOf_def getParam_def sampleRuntime_def asciiUpper_def asciiUpperChar_def)
  have l: "locationIdFor sampleEnv ''FR'' = Some ''111''"
    by (simp add: locationIdFor_def UK_LOCATION_ID_def sampleEnv_def)
  have n1: "toNumber sampleRuntime ''123'' = JNum 123"
    by (simp add: sampleRuntime_def decimalNumber_def isDigits_def)
  have n2: "toNumber sampleRuntime ''111'' = JNum 111"
    by (simp add: sampleRuntime_def decimalNumber_def isDigits_def)
  have gv: "orEmpty (getParam ?ps ''variant'') = ''123''" by (simp add: getParam_def)
  have r: "loader sampleRuntime sampleEnv ?fetch ?ps
       = \<lparr>status = 200,
          body = JObj [(''variantId'', JNum 123), (''country'', JStr ''FR''),
                       (''locationId'', JNum 111), (''qty'', JNum 0),
                       (''available'', JBool False)],
          cacheControl = Some ''public, max-age=15''\<rparr>"
    using sh tk v d st
    by (simp add: loader_def Let_def g c l n1 n2 gv)
  from ok ne av sh tk v d r show ?thesis by simp
qed

end
